theory Spec2Isabelle
  imports Complex_Main
begin

section \<open>Numbers of the source\<close>

text \<open>
  The source is Python. Its integers are unbounded (\<open>int\<close>). Its floats are modelled by
  exact rationals (\<open>rat\<close>): true division \<open>/\<close> is division of rationals, and the
  rounding error of binary floating point is not part of this development.

  \<open>round\<close> of Python 3 rounds a half to the even neighbour (\<open>round(63.5) = 64\<close>,
  \<open>round(-4095.5) = -4096\<close>, \<open>round(0.5) = 0\<close>), unlike \<^const>\<open>round\<close> of HOL, and
  \<open>int\<close> applied to a float truncates towards zero.
\<close>

definition py_round :: "rat \<Rightarrow> int" where
  "py_round q =
     (let f = \<lfloor>q\<rfloor>; d = q - of_int f
      in if d < 1 / 2 then f
         else if 1 / 2 < d then f + 1
         else if even f then f else f + 1)"

definition py_int :: "rat \<Rightarrow> int" where
  "py_int q = (if 0 \<le> q then \<lfloor>q\<rfloor> else \<lceil>q\<rceil>)"

type_synonym rect = "int \<times> int \<times> int \<times> int"

section \<open>expression\_control/pitch\_bend\_processor.py\<close>

text \<open>\<open>self.midi_bend_max_abs_value\<close>, set to 8191 by the constructor.\<close>

definition midi_bend_max_abs_value :: int where
  "midi_bend_max_abs_value = 8191"

text \<open>\<open>PitchBendProcessor._map_value\<close>: no clamping.\<close>

definition pb_map_value :: "rat \<Rightarrow> rat \<Rightarrow> rat \<Rightarrow> rat \<Rightarrow> rat \<Rightarrow> rat" where
  "pb_map_value v from_low from_high to_low to_high =
     (if from_low = from_high then to_low
      else let percentage = (v - from_low) / (from_high - from_low)
           in to_low + percentage * (to_high - to_low))"

definition calculate_pitch_bend :: "rat \<Rightarrow> rect \<Rightarrow> int" where
  "calculate_pitch_bend finger_x_position zone_rect =
     (case zone_rect of (zone_x, _, zone_width, _) \<Rightarrow>
        if zone_width = 0 then 0
        else
          let relative_pos_x = (finger_x_position - of_int zone_x) / of_int zone_width;
              relative_pos_x = max 0 (min 1 relative_pos_x);
              bend_value = pb_map_value relative_pos_x 0 1
                             (of_int (- midi_bend_max_abs_value)) (of_int midi_bend_max_abs_value);
              clamped_bend_value = py_round bend_value
          in max (- midi_bend_max_abs_value) (min midi_bend_max_abs_value clamped_bend_value))"

section \<open>expression\_control/velocity\_intensity\_processor.py\<close>

definition midi_min_value :: int where
  "midi_min_value = 0"

definition midi_max_value :: int where
  "midi_max_value = 127"

text \<open>\<open>VelocityIntensityProcessor._map_value\<close>: clamps to the target range.\<close>

definition vi_map_value :: "rat \<Rightarrow> rat \<Rightarrow> rat \<Rightarrow> rat \<Rightarrow> rat \<Rightarrow> rat" where
  "vi_map_value v from_low from_high to_low to_high =
     (if from_low = from_high then (if to_low \<le> to_high then to_low else to_high)
      else let percentage = (v - from_low) / (from_high - from_low);
               mapped_value = to_low + percentage * (to_high - to_low)
           in if to_low < to_high then max to_low (min mapped_value to_high)
              else max to_high (min mapped_value to_low))"

definition calculate_initial_velocity :: "rat \<Rightarrow> rect \<Rightarrow> int" where
  "calculate_initial_velocity finger_y_position zone_rect =
     (case zone_rect of (_, zone_y, _, zone_height) \<Rightarrow>
        if zone_height = 0 then midi_min_value
        else
          let relative_y = (finger_y_position - of_int zone_y) / of_int zone_height;
              relative_y = max 0 (min 1 relative_y);
              velocity = vi_map_value relative_y 0 1 (of_int midi_min_value) (of_int midi_max_value)
          in py_round velocity)"

definition calculate_continuous_intensity :: "rat \<Rightarrow> rect \<Rightarrow> int" where
  "calculate_continuous_intensity finger_y_position zone_rect =
     (case zone_rect of (_, zone_y, _, zone_height) \<Rightarrow>
        if zone_height = 0 then midi_min_value
        else
          let relative_y = (finger_y_position - of_int zone_y) / of_int zone_height;
              relative_y = max 0 (min 1 relative_y);
              intensity = vi_map_value relative_y 0 1 (of_int midi_min_value) (of_int midi_max_value)
          in py_round intensity)"

section \<open>note\_mapping/zone.py\<close>

text \<open>
  A finger identifier is the pair \<open>(hand_id, finger_tip_landmark_id)\<close> built by
  \<open>process_hands_data\<close>.
\<close>

type_synonym finger_id = "string \<times> int"

type_synonym color = "int \<times> int \<times> int"

record NoteZone =
  rect :: rect
  note_name :: string
  note_midi_value :: int
  label :: string
  is_active :: bool
  active_finger_id :: "finger_id option"
  base_color :: color
  highlight_color :: color
  current_color :: color

text \<open>\<open>NoteZone.__init__\<close>; \<open>lbl\<close> is the optional \<open>label\<close> argument.\<close>

definition NoteZone_init ::
  "int \<Rightarrow> int \<Rightarrow> int \<Rightarrow> int \<Rightarrow> string \<Rightarrow> int \<Rightarrow> string option \<Rightarrow> NoteZone" where
  "NoteZone_init x y width height name midi lbl =
     \<lparr> rect = (x, y, width, height),
       note_name = name,
       note_midi_value = midi,
       label = (case lbl of Some l \<Rightarrow> l | None \<Rightarrow> name),
       is_active = False,
       active_finger_id = None,
       base_color = (50, 50, 50),
       highlight_color = (0, 255, 0),
       current_color = (50, 50, 50) \<rparr>"

definition is_point_inside :: "NoteZone \<Rightarrow> int \<Rightarrow> int \<Rightarrow> bool" where
  "is_point_inside z point_x point_y =
     (case rect z of (zone_x, zone_y, zone_width, zone_height) \<Rightarrow>
        (zone_x \<le> point_x \<and> point_x < zone_x + zone_width) \<and>
        (zone_y \<le> point_y \<and> point_y < zone_y + zone_height))"

definition activate :: "NoteZone \<Rightarrow> finger_id \<Rightarrow> NoteZone" where
  "activate z fid =
     z\<lparr> is_active := True, active_finger_id := Some fid, current_color := highlight_color z \<rparr>"

definition deactivate :: "NoteZone \<Rightarrow> NoteZone" where
  "deactivate z =
     z\<lparr> is_active := False, active_finger_id := None, current_color := base_color z \<rparr>"

section \<open>note\_mapping/layout\_generator.py\<close>

text \<open>
  The part of \<open>LayoutGenerator.generate_layout\<close> that arranges the notes into zones, from
  \<open>num_notes_total = len(notes_to_display)\<close> on. Its inputs are the list
  \<open>notes_to_display\<close> of pairs (note name, MIDI value), whatever scale produced it, and the
  settings \<open>resolution\<close>, \<open>layout.padding\<close> and \<open>zone_labels\<close>.
\<close>

definition num_rows :: nat where
  "num_rows = 2"

text \<open>
  \<open>row_counts = [0] * num_rows\<close>, then \<open>row_counts[i % num_rows] += 1\<close> for every
  \<open>i\<close> in \<open>range(num_notes_total)\<close>. The index \<open>i mod num_rows\<close> is always in range.
\<close>

definition row_counts :: "nat \<Rightarrow> nat list" where
  "row_counts num_notes_total =
     fold (\<lambda>i rc. rc[i mod num_rows := rc ! (i mod num_rows) + 1])
       [0..<num_notes_total] (replicate num_rows 0)"

definition zone_area_width :: "int \<Rightarrow> int \<Rightarrow> int" where
  "zone_area_width screen_width padding = screen_width - 2 * padding"

definition zone_area_height :: "int \<Rightarrow> int \<Rightarrow> int" where
  "zone_area_height screen_height padding = screen_height - 2 * padding"

definition row_height :: "int \<Rightarrow> int \<Rightarrow> rat" where
  "row_height screen_height padding =
     of_int (zone_area_height screen_height padding) / of_nat num_rows"

text \<open>
  The inner loop \<open>for i_col in range(notes_in_current_row)\<close>. The loop state is the list
  \<open>self.zones\<close> and \<open>current_note_index\<close>; \<open>break\<close> leaves the loop with the
  state as it is.
\<close>

fun place_columns ::
  "int \<Rightarrow> bool \<Rightarrow> (string \<times> int) list \<Rightarrow> nat \<Rightarrow> rat \<Rightarrow> rat \<Rightarrow> nat list \<Rightarrow>
   NoteZone list \<times> nat \<Rightarrow> NoteZone list \<times> nat" where
  "place_columns padding zone_labels notes_to_display i_row zone_width rh [] st = st"
| "place_columns padding zone_labels notes_to_display i_row zone_width rh (i_col # cols)
     (zones, current_note_index) =
     (if current_note_index \<ge> length notes_to_display then (zones, current_note_index)
      else
        let (name, note_midi) = notes_to_display ! current_note_index;
            x = of_int padding + of_nat i_col * zone_width;
            y = of_int padding + of_nat i_row * rh;
            zone_label = (if zone_labels then Some name else None);
            new_zone = NoteZone_init (py_int x) (py_int y) (py_int zone_width) (py_int rh)
                     name note_midi zone_label
        in place_columns padding zone_labels notes_to_display i_row zone_width rh cols
             (zones @ [new_zone], current_note_index + 1))"

text \<open>
  The outer loop \<open>for i_row in range(num_rows)\<close>; a row without notes is skipped
  (\<open>continue\<close>) before the division by its number of notes.
\<close>

fun place_rows ::
  "int \<Rightarrow> int \<Rightarrow> int \<Rightarrow> bool \<Rightarrow> (string \<times> int) list \<Rightarrow> nat list \<Rightarrow>
   NoteZone list \<times> nat \<Rightarrow> NoteZone list \<times> nat" where
  "place_rows screen_width screen_height padding zone_labels notes_to_display [] st = st"
| "place_rows screen_width screen_height padding zone_labels notes_to_display (i_row # rows) st =
     (let notes_in_current_row = row_counts (length notes_to_display) ! i_row
      in if notes_in_current_row = 0
         then place_rows screen_width screen_height padding zone_labels notes_to_display rows st
         else
           let zone_width =
                 of_int (zone_area_width screen_width padding) / of_nat notes_in_current_row
           in place_rows screen_width screen_height padding zone_labels notes_to_display rows
                (place_columns padding zone_labels notes_to_display i_row zone_width
                   (row_height screen_height padding) [0..<notes_in_current_row] st))"

definition generate_layout ::
  "int \<Rightarrow> int \<Rightarrow> int \<Rightarrow> bool \<Rightarrow> (string \<times> int) list \<Rightarrow> NoteZone list" where
  "generate_layout screen_width screen_height padding zone_labels notes_to_display =
     (if notes_to_display = [] then []
      else fst (place_rows screen_width screen_height padding zone_labels notes_to_display
                  [0..<num_rows] ([], 0)))"

text \<open>The y coordinate of a zone, \<open>zone.rect[1]\<close>.\<close>

definition zone_y :: "NoteZone \<Rightarrow> int" where
  "zone_y z = (case rect z of (_, y, _, _) \<Rightarrow> y)"

section \<open>audio\_output/midi\_handler.py\<close>

text \<open>
  The messages that \<open>MidiHandler\<close> builds with \<open>mido.Message\<close>, by their mido type
  names; the channel is the last argument, 0-indexed as mido has it.
\<close>

datatype midi_msg =
    Note_on int int int
  | Note_off int int int
  | Pitchwheel int int
  | Aftertouch int int
  | Control_change int int int

datatype py_error = ValueError

text \<open>
  \<open>mido.Message(...)\<close> is library code: it checks its arguments and raises
  \<open>ValueError\<close> for a data byte outside 0..127, a channel outside 0..15 or a pitch
  outside -8192..8191. The check is part of the model, since the handler changes its
  channel tables before it builds the message.
\<close>

definition data_byte_ok :: "int \<Rightarrow> bool" where
  "data_byte_ok v = (0 \<le> v \<and> v \<le> 127)"

definition channel_ok :: "int \<Rightarrow> bool" where
  "channel_ok c = (0 \<le> c \<and> c \<le> 15)"

definition pitch_ok :: "int \<Rightarrow> bool" where
  "pitch_ok p = (- 8192 \<le> p \<and> p \<le> 8191)"

fun msg_ok :: "midi_msg \<Rightarrow> bool" where
  "msg_ok (Note_on n v c) = (data_byte_ok n \<and> data_byte_ok v \<and> channel_ok c)"
| "msg_ok (Note_off n v c) = (data_byte_ok n \<and> data_byte_ok v \<and> channel_ok c)"
| "msg_ok (Pitchwheel p c) = (pitch_ok p \<and> channel_ok c)"
| "msg_ok (Aftertouch v c) = (data_byte_ok v \<and> channel_ok c)"
| "msg_ok (Control_change k v c) = (data_byte_ok k \<and> data_byte_ok v \<and> channel_ok c)"

definition mido_Message :: "midi_msg \<Rightarrow> py_error + midi_msg" where
  "mido_Message m = (if msg_ok m then Inr m else Inl ValueError)"

text \<open>
  The output port: whether it has been closed, and the messages sent through it so far,
  oldest first. \<open>self.port\<close> is \<open>None\<close> when no port could be opened.
\<close>

record midi_port =
  port_closed :: bool
  sent :: "midi_msg list"

record 'f MidiHandler =
  available_channels :: "int set"
  active_note_channels :: "'f \<rightharpoonup> int"
  port :: "midi_port option"

text \<open>
  The validation of \<open>midi_channel_range\<close> in \<open>MidiHandler.__init__\<close>. The setting is
  \<open>Some\<close> list of integers, or \<open>None\<close> for a value that is no list of integers;
  anything but two channels \<open>lo \<le> hi\<close> within 1..16 falls back to \<open>[2, 16]\<close>.
\<close>

definition mpe_ch_range :: "int list option \<Rightarrow> int \<times> int" where
  "mpe_ch_range setting =
     (case setting of
        Some [lo, hi] \<Rightarrow>
          if 1 \<le> lo \<and> lo \<le> 16 \<and> 1 \<le> hi \<and> hi \<le> 16 \<and> lo \<le> hi then (lo, hi) else (2, 16)
      | _ \<Rightarrow> (2, 16))"

text \<open>
  \<open>MidiHandler.__init__\<close>; \<open>p\<close> is what \<open>open_port\<close> left in \<open>self.port\<close>.
  \<open>set(range(lo, hi + 1))\<close> is the interval \<open>{lo..hi}\<close>.
\<close>

definition MidiHandler_init :: "int list option \<Rightarrow> midi_port option \<Rightarrow> 'f MidiHandler" where
  "MidiHandler_init setting p =
     (case mpe_ch_range setting of (lo, hi) \<Rightarrow>
        \<lparr> available_channels = {lo..hi}, active_note_channels = Map.empty, port = p \<rparr>)"

text \<open>The guard \<open>if not self.port or self.port.closed: return\<close>, negated.\<close>

definition port_is_open :: "'f MidiHandler \<Rightarrow> bool" where
  "port_is_open mh = (case port mh of None \<Rightarrow> False | Some p \<Rightarrow> \<not> port_closed p)"

text \<open>
  \<open>msg = mido.Message(...); self.port.send(msg)\<close>: the result is the exception raised, if
  any, and the handler as the call leaves it.
\<close>

definition build_and_send :: "midi_msg \<Rightarrow> 'f MidiHandler \<Rightarrow> py_error option \<times> 'f MidiHandler" where
  "build_and_send m mh =
     (case mido_Message m of
        Inl e \<Rightarrow> (Some e, mh)
      | Inr msg \<Rightarrow>
          (None, mh\<lparr> port := map_option (\<lambda>p. p\<lparr> sent := sent p @ [msg] \<rparr>) (port mh) \<rparr>))"

text \<open>
  \<open>send_note_on\<close>. \<open>self.available_channels.pop()\<close> removes and returns an arbitrary
  element of the set; which one is left to the Python implementation, so the choice is
  the parameter \<open>pop\<close>. The warning printed when the channels have run out is no part of
  the state.
\<close>

definition send_note_on ::
  "(int set \<Rightarrow> int) \<Rightarrow> int \<Rightarrow> int \<Rightarrow> 'f \<Rightarrow> 'f MidiHandler \<Rightarrow> py_error option \<times> 'f MidiHandler" where
  "send_note_on pop note_value velocity finger_id mh =
     (if \<not> port_is_open mh then (None, mh)
      else
        case active_note_channels mh finger_id of
          Some assigned_channel \<Rightarrow>
            build_and_send (Note_on note_value velocity (assigned_channel - 1)) mh
        | None \<Rightarrow>
            if available_channels mh \<noteq> {} then
              let assigned_channel = pop (available_channels mh);
                  mh' = mh\<lparr> available_channels := available_channels mh - {assigned_channel},
                            active_note_channels :=
                              (active_note_channels mh)(finger_id \<mapsto> assigned_channel) \<rparr>
              in build_and_send (Note_on note_value velocity (assigned_channel - 1)) mh'
            else (None, mh))"

definition send_note_off ::
  "int \<Rightarrow> 'f \<Rightarrow> 'f MidiHandler \<Rightarrow> py_error option \<times> 'f MidiHandler" where
  "send_note_off note_value finger_id mh =
     (if \<not> port_is_open mh then (None, mh)
      else
        case active_note_channels mh finger_id of
          Some assigned_channel \<Rightarrow>
            let mh' = mh\<lparr> active_note_channels := (active_note_channels mh)(finger_id := None),
                          available_channels := insert assigned_channel (available_channels mh) \<rparr>
            in build_and_send (Note_off note_value 0 (assigned_channel - 1)) mh'
        | None \<Rightarrow> (None, mh))"

definition send_pitch_bend ::
  "int \<Rightarrow> 'f \<Rightarrow> 'f MidiHandler \<Rightarrow> py_error option \<times> 'f MidiHandler" where
  "send_pitch_bend bend_value finger_id mh =
     (if \<not> port_is_open mh then (None, mh)
      else
        case active_note_channels mh finger_id of
          Some assigned_channel \<Rightarrow> build_and_send (Pitchwheel bend_value (assigned_channel - 1)) mh
        | None \<Rightarrow> (None, mh))"

definition send_channel_pressure ::
  "int \<Rightarrow> 'f \<Rightarrow> 'f MidiHandler \<Rightarrow> py_error option \<times> 'f MidiHandler" where
  "send_channel_pressure pressure_value finger_id mh =
     (if \<not> port_is_open mh then (None, mh)
      else
        case active_note_channels mh finger_id of
          Some assigned_channel \<Rightarrow>
            build_and_send (Aftertouch pressure_value (assigned_channel - 1)) mh
        | None \<Rightarrow> (None, mh))"

definition send_control_change ::
  "int \<Rightarrow> int \<Rightarrow> 'f \<Rightarrow> 'f MidiHandler \<Rightarrow> py_error option \<times> 'f MidiHandler" where
  "send_control_change cc_number cc_value finger_id mh =
     (if \<not> port_is_open mh then (None, mh)
      else
        case active_note_channels mh finger_id of
          Some assigned_channel \<Rightarrow>
            build_and_send (Control_change cc_number cc_value (assigned_channel - 1)) mh
        | None \<Rightarrow> (None, mh))"

text \<open>
  A sequence of \<open>send_note_on\<close> and \<open>send_note_off\<close> calls on one handler. A caller that
  survives an exception goes on with the handler as the failed call left it.
\<close>

datatype 'f note_call = Note_on_call int int 'f | Note_off_call int 'f

fun run_call :: "(int set \<Rightarrow> int) \<Rightarrow> 'f note_call \<Rightarrow> 'f MidiHandler \<Rightarrow> 'f MidiHandler" where
  "run_call pop (Note_on_call n v f) mh = snd (send_note_on pop n v f mh)"
| "run_call pop (Note_off_call n f) mh = snd (send_note_off n f mh)"

definition run_calls :: "(int set \<Rightarrow> int) \<Rightarrow> 'f note_call list \<Rightarrow> 'f MidiHandler \<Rightarrow> 'f MidiHandler" where
  "run_calls pop cs mh = fold (run_call pop) cs mh"

text \<open>What \<open>set.pop\<close> guarantees: an element of the set it is applied to.\<close>

definition pop_returns_member :: "(int set \<Rightarrow> int) \<Rightarrow> bool" where
  "pop_returns_member pop = (\<forall>S. finite S \<and> S \<noteq> {} \<longrightarrow> pop S \<in> S)"

section \<open>audio\_output/audio\_engine.py\<close>

text \<open>
  The engine in the audio mode \<open>midi\<close> (the default): \<open>self.synth_handler\<close> is
  \<open>None\<close>, and \<open>self.midi_handler\<close> is \<open>None\<close> when the handler could not be built.
  The field \<open>calls\<close> is not in the source: it records the calls the engine has received,
  oldest first, as the mock engine of the tests does.
\<close>

datatype 'f engine_call =
    NoteOn int int 'f
  | NoteOff int 'f
  | PitchBend int 'f
  | IntensityUpdate int 'f int

record 'f AudioEngine =
  midi_handler :: "'f MidiHandler option"
  calls :: "'f engine_call list"

definition with_midi ::
  "('f MidiHandler \<Rightarrow> py_error option \<times> 'f MidiHandler) \<Rightarrow> 'f AudioEngine \<Rightarrow>
   py_error option \<times> 'f AudioEngine" where
  "with_midi send ae =
     (case midi_handler ae of
        None \<Rightarrow> (None, ae)
      | Some mh \<Rightarrow> (case send mh of (e, mh') \<Rightarrow> (e, ae\<lparr> midi_handler := Some mh' \<rparr>)))"

definition note_on ::
  "(int set \<Rightarrow> int) \<Rightarrow> int \<Rightarrow> int \<Rightarrow> 'f \<Rightarrow> 'f AudioEngine \<Rightarrow> py_error option \<times> 'f AudioEngine" where
  "note_on pop note_value velocity finger_id ae =
     with_midi (send_note_on pop note_value velocity finger_id)
       (ae\<lparr> calls := calls ae @ [NoteOn note_value velocity finger_id] \<rparr>)"

definition note_off :: "int \<Rightarrow> 'f \<Rightarrow> 'f AudioEngine \<Rightarrow> py_error option \<times> 'f AudioEngine" where
  "note_off note_value finger_id ae =
     with_midi (send_note_off note_value finger_id)
       (ae\<lparr> calls := calls ae @ [NoteOff note_value finger_id] \<rparr>)"

definition pitch_bend :: "int \<Rightarrow> 'f \<Rightarrow> 'f AudioEngine \<Rightarrow> py_error option \<times> 'f AudioEngine" where
  "pitch_bend bend_value finger_id ae =
     with_midi (send_pitch_bend bend_value finger_id)
       (ae\<lparr> calls := calls ae @ [PitchBend bend_value finger_id] \<rparr>)"

definition intensity_update ::
  "int \<Rightarrow> 'f \<Rightarrow> int \<Rightarrow> 'f AudioEngine \<Rightarrow> py_error option \<times> 'f AudioEngine" where
  "intensity_update pressure_value finger_id note_value ae =
     with_midi (send_channel_pressure pressure_value finger_id)
       (ae\<lparr> calls := calls ae @ [IntensityUpdate pressure_value finger_id note_value] \<rparr>)"

section \<open>note\_mapping/interaction\_logic.py\<close>

text \<open>
  The dictionary \<open>FINGER_TIP_LANDMARKS\<close> in its insertion order, which is the order in
  which \<open>process_hands_data\<close> visits the fingers of a hand, and its inverse.
\<close>

definition FINGER_TIP_LANDMARKS :: "(string \<times> int) list" where
  "FINGER_TIP_LANDMARKS =
     [(''THUMB'', 4), (''INDEX'', 8), (''MIDDLE'', 12), (''RING'', 16), (''PINKY'', 20)]"

definition LANDMARK_ID_TO_FINGER_NAME :: "int \<rightharpoonup> string" where
  "LANDMARK_ID_TO_FINGER_NAME = map_of (map (\<lambda>(k, v). (v, k)) FINGER_TIP_LANDMARKS)"

text \<open>
  One entry of \<open>hands_data\<close>, with the keys that \<open>process_hands_data\<close> reads. A landmark
  is the tuple \<open>(lm_id, x, y, z)\<close> with pixel coordinates \<open>x\<close>, \<open>y\<close>.
\<close>

type_synonym landmark = "int \<times> int \<times> int \<times> rat"

record hand =
  handedness :: string
  finger_states :: "string \<rightharpoonup> string"
  landmarks :: "landmark list"

text \<open>
  The value stored in \<open>self.active_notes\<close> for a finger. \<open>zone\<close> is a reference to a
  \<open>NoteZone\<close> object: its address in the store of zone objects.
\<close>

record note_data =
  zone :: nat
  initial_y :: int
  midi_note :: int

text \<open>
  The objects that \<open>process_hands_data\<close> reads and changes: the manager's
  \<open>active_notes\<close> (a dictionary, in insertion order) and \<open>target_fingers\<close>, its audio
  engine, and the \<open>NoteZone\<close> objects, which the zone list and the active notes share by
  reference. \<open>processed_finger_identifiers\<close> and \<open>notes_to_remove\<close> are the two local
  sets of one call.
\<close>

record im_state =
  active_notes :: "(finger_id \<times> note_data) list"
  target_fingers :: "int set"
  audio_engine :: "finger_id AudioEngine"
  zone_store :: "nat \<Rightarrow> NoteZone"
  processed_finger_identifiers :: "finger_id set"
  notes_to_remove :: "finger_id set"

text \<open>\<open>key in d\<close> and \<open>d[key] = value\<close> on a dictionary kept as an association list.\<close>

definition dict_has :: "('k \<times> 'v) list \<Rightarrow> 'k \<Rightarrow> bool" where
  "dict_has d k = (k \<in> fst ` set d)"

fun dict_set :: "('k \<times> 'v) list \<Rightarrow> 'k \<Rightarrow> 'v \<Rightarrow> ('k \<times> 'v) list" where
  "dict_set [] k v = [(k, v)]"
| "dict_set ((k', v') # d) k v = (if k' = k then (k, v) # d else (k', v') # dict_set d k v)"

text \<open>\<open>str(n)\<close> for the hand index in \<open>f"hand_{hand_idx}"\<close>.\<close>

fun str_nat :: "nat \<Rightarrow> string" where
  "str_nat n =
     (if n < 10 then [''0123456789'' ! n]
      else str_nat (n div 10) @ [''0123456789'' ! (n mod 10)])"

declare str_nat.simps [simp del]

text \<open>
  \<open>_get_finger_tip_coordinate\<close>: the landmark is looked up only if its identifier is
  below the length of the list.
\<close>

definition get_finger_tip_coordinate :: "landmark list \<Rightarrow> int \<Rightarrow> (int \<times> int \<times> rat) option" where
  "get_finger_tip_coordinate hand_landmarks finger_tip_id =
     (if finger_tip_id < int (length hand_landmarks) then
        (case find (\<lambda>lm. fst lm = finger_tip_id) hand_landmarks of
           Some (_, x, y, z) \<Rightarrow> Some (x, y, z)
         | None \<Rightarrow> None)
      else None)"

text \<open>
  A Python \<open>for\<close> loop whose body may raise: the exception ends the loop and is handed
  on with the state reached.
\<close>

fun for_each :: "('a \<Rightarrow> 's \<Rightarrow> py_error option \<times> 's) \<Rightarrow> 'a list \<Rightarrow> 's \<Rightarrow> py_error option \<times> 's" where
  "for_each body [] s = (None, s)"
| "for_each body (x # xs) s =
     (case body x s of
        (Some e, s') \<Rightarrow> (Some e, s')
      | (None, s') \<Rightarrow> for_each body xs s')"

text \<open>
  Part 1 of \<open>process_hands_data\<close>, for one active note. \<open>sustain_hand\<close> is the body of
  \<open>if current_hand_id == hand_id_of_active_note\<close>; it ends in \<open>break\<close> on every path
  and returns \<open>finger_still_valid_for_note\<close>.
\<close>

definition sustain_hand ::
  "hand \<Rightarrow> finger_id \<Rightarrow> note_data \<Rightarrow> im_state \<Rightarrow> py_error option \<times> bool \<times> im_state" where
  "sustain_hand h finger_identifier nd s =
     (case LANDMARK_ID_TO_FINGER_NAME (snd finger_identifier) of
        None \<Rightarrow> (None, False, s)
      | Some finger_name \<Rightarrow>
          if finger_states h finger_name \<noteq> Some ''extended'' then (None, False, s)
          else
            case get_finger_tip_coordinate (landmarks h) (snd finger_identifier) of
              None \<Rightarrow> (None, False, s)
            | Some (finger_x, finger_y, _) \<Rightarrow>
                let note_zone = zone_store s (zone nd) in
                if \<not> is_point_inside note_zone finger_x finger_y then (None, False, s)
                else
                  let bend_value = calculate_pitch_bend (of_int finger_x) (rect note_zone) in
                  case pitch_bend bend_value finger_identifier (audio_engine s) of
                    (Some e, ae) \<Rightarrow> (Some e, True, s\<lparr> audio_engine := ae \<rparr>)
                  | (None, ae) \<Rightarrow>
                      let intensity_value =
                            calculate_continuous_intensity (of_int finger_y) (rect note_zone) in
                      case intensity_update intensity_value finger_identifier (midi_note nd) ae of
                        (Some e, ae') \<Rightarrow> (Some e, True, s\<lparr> audio_engine := ae' \<rparr>)
                      | (None, ae') \<Rightarrow>
                          (None, True,
                           s\<lparr> audio_engine := ae',
                              processed_finger_identifiers :=
                                insert finger_identifier (processed_finger_identifiers s) \<rparr>))"

text \<open>
  The loop \<open>for hand in hands_data\<close> of part 1: the first hand whose \<open>handedness\<close> is
  the hand identifier of the active note decides. The result is the exception, if any,
  \<open>found_finger_in_current_frame\<close>, \<open>finger_still_valid_for_note\<close> and the state.
\<close>

fun find_hand ::
  "hand list \<Rightarrow> finger_id \<Rightarrow> note_data \<Rightarrow> im_state \<Rightarrow> py_error option \<times> bool \<times> bool \<times> im_state" where
  "find_hand [] finger_identifier nd s = (None, False, False, s)"
| "find_hand (h # hs) finger_identifier nd s =
     (if handedness h = fst finger_identifier
      then (case sustain_hand h finger_identifier nd s of (e, valid, s') \<Rightarrow> (e, True, valid, s'))
      else find_hand hs finger_identifier nd s)"

definition process_active_note ::
  "hand list \<Rightarrow> finger_id \<times> note_data \<Rightarrow> im_state \<Rightarrow> py_error option \<times> im_state" where
  "process_active_note hands_data item s =
     (case item of (finger_identifier, nd) \<Rightarrow>
        case find_hand hands_data finger_identifier nd s of
          (Some e, _, _, s') \<Rightarrow> (Some e, s')
        | (None, found_finger_in_current_frame, finger_still_valid_for_note, s') \<Rightarrow>
            if \<not> found_finger_in_current_frame \<or> \<not> finger_still_valid_for_note then
              case note_off (midi_note nd) finger_identifier (audio_engine s') of
                (Some e, ae) \<Rightarrow> (Some e, s'\<lparr> audio_engine := ae \<rparr>)
              | (None, ae) \<Rightarrow>
                  (None,
                   s'\<lparr> audio_engine := ae,
                       zone_store :=
                         (zone_store s')(zone nd := deactivate (zone_store s' (zone nd))),
                       notes_to_remove := insert finger_identifier (notes_to_remove s') \<rparr>)
            else (None, s'))"

text \<open>The loop that deletes the keys in \<open>notes_to_remove\<close> from \<open>self.active_notes\<close>.\<close>

definition remove_notes :: "im_state \<Rightarrow> im_state" where
  "remove_notes s =
     s\<lparr> active_notes := filter (\<lambda>(fid, _). fid \<notin> notes_to_remove s) (active_notes s) \<rparr>"

text \<open>
  Part 2. The hand identifier of a new note is the \<open>handedness\<close>, or
  \<open>f"hand_{hand_idx}"\<close> when the handedness is \<open>"Unknown"\<close>.
\<close>

definition hand_id_of :: "nat \<Rightarrow> hand \<Rightarrow> string" where
  "hand_id_of hand_idx h =
     (if handedness h = ''Unknown'' then ''hand_'' @ str_nat hand_idx else handedness h)"

text \<open>
  The loop \<open>for zone in zones\<close>: the first zone that contains the finger tip ends the
  loop, with a new note if that zone is not active and with nothing otherwise.
\<close>

fun scan_zones ::
  "(int set \<Rightarrow> int) \<Rightarrow> nat list \<Rightarrow> finger_id \<Rightarrow> int \<Rightarrow> int \<Rightarrow> im_state \<Rightarrow>
   py_error option \<times> im_state" where
  "scan_zones pop [] finger_identifier finger_tip_x finger_tip_y s = (None, s)"
| "scan_zones pop (a # zones) finger_identifier finger_tip_x finger_tip_y s =
     (let z = zone_store s a in
      if is_point_inside z finger_tip_x finger_tip_y then
        if \<not> is_active z then
          let velocity = calculate_initial_velocity (of_int finger_tip_y) (rect z) in
          case note_on pop (note_midi_value z) velocity finger_identifier (audio_engine s) of
            (Some e, ae) \<Rightarrow> (Some e, s\<lparr> audio_engine := ae \<rparr>)
          | (None, ae) \<Rightarrow>
              (None,
               s\<lparr> audio_engine := ae,
                  zone_store := (zone_store s)(a := activate z finger_identifier),
                  active_notes :=
                    dict_set (active_notes s) finger_identifier
                      \<lparr> zone = a, initial_y = finger_tip_y, midi_note = note_midi_value z \<rparr>,
                  processed_finger_identifiers :=
                    insert finger_identifier (processed_finger_identifiers s) \<rparr>)
        else (None, s)
      else scan_zones pop zones finger_identifier finger_tip_x finger_tip_y s)"

text \<open>The body of \<open>for finger_name, finger_tip_landmark_id in FINGER_TIP_LANDMARKS.items()\<close>.\<close>

definition try_finger ::
  "(int set \<Rightarrow> int) \<Rightarrow> nat list \<Rightarrow> hand \<Rightarrow> string \<Rightarrow> string \<times> int \<Rightarrow> im_state \<Rightarrow>
   py_error option \<times> im_state" where
  "try_finger pop zones h hand_id finger s =
     (case finger of (finger_name, finger_tip_landmark_id) \<Rightarrow>
        if finger_tip_landmark_id \<notin> target_fingers s then (None, s)
        else
          let finger_identifier = (hand_id, finger_tip_landmark_id) in
          if finger_identifier \<in> processed_finger_identifiers s then (None, s)
          else if dict_has (active_notes s) finger_identifier then (None, s)
          else if finger_states h finger_name = Some ''extended'' then
            case get_finger_tip_coordinate (landmarks h) finger_tip_landmark_id of
              None \<Rightarrow> (None, s)
            | Some (finger_tip_x, finger_tip_y, _) \<Rightarrow>
                scan_zones pop zones finger_identifier finger_tip_x finger_tip_y s
          else (None, s))"

text \<open>The body of \<open>for hand_idx, hand in enumerate(hands_data)\<close>.\<close>

definition try_hand ::
  "(int set \<Rightarrow> int) \<Rightarrow> nat list \<Rightarrow> nat \<times> hand \<Rightarrow> im_state \<Rightarrow> py_error option \<times> im_state" where
  "try_hand pop zones ih s =
     (case ih of (hand_idx, h) \<Rightarrow>
        for_each (try_finger pop zones h (hand_id_of hand_idx h)) FINGER_TIP_LANDMARKS s)"

text \<open>
  Part 1 with the removal of the released notes, part 2, and the whole of
  \<open>process_hands_data\<close>. \<open>zones\<close> is the list of zone objects by address.
\<close>

definition release_pass :: "hand list \<Rightarrow> im_state \<Rightarrow> py_error option \<times> im_state" where
  "release_pass hands_data s =
     (let s0 = s\<lparr> processed_finger_identifiers := {}, notes_to_remove := {} \<rparr>
      in case for_each (process_active_note hands_data) (active_notes s0) s0 of
           (Some e, s') \<Rightarrow> (Some e, s')
         | (None, s') \<Rightarrow> (None, remove_notes s'))"

definition claim_pass ::
  "(int set \<Rightarrow> int) \<Rightarrow> hand list \<Rightarrow> nat list \<Rightarrow> im_state \<Rightarrow> py_error option \<times> im_state" where
  "claim_pass pop hands_data zones s = for_each (try_hand pop zones) (enumerate 0 hands_data) s"

definition process_hands_data ::
  "(int set \<Rightarrow> int) \<Rightarrow> hand list \<Rightarrow> nat list \<Rightarrow> im_state \<Rightarrow> py_error option \<times> im_state" where
  "process_hands_data pop hands_data zones s =
     (case release_pass hands_data s of
        (Some e, s') \<Rightarrow> (Some e, s')
      | (None, s') \<Rightarrow> claim_pass pop hands_data zones s')"

text \<open>
  \<open>InteractionManager.__init__\<close> with \<open>use_all_fingers\<close> true, on an engine and a store
  of zone objects.
\<close>

definition InteractionManager_init :: "finger_id AudioEngine \<Rightarrow> (nat \<Rightarrow> NoteZone) \<Rightarrow> im_state" where
  "InteractionManager_init ae store =
     \<lparr> active_notes = [],
       target_fingers = snd ` set FINGER_TIP_LANDMARKS,
       audio_engine = ae,
       zone_store = store,
       processed_finger_identifiers = {},
       notes_to_remove = {} \<rparr>"

section \<open>Auxiliary definitions\<close>

text \<open>
  The two expression mappings as functions of the clamped relative position, for zones
  of non-zero extent.
\<close>

definition bend_of_relative :: "rat \<Rightarrow> int" where
  "bend_of_relative r = max (- 8191) (min 8191 (py_round (- 8191 + r * 16382)))"

definition level_of_relative :: "rat \<Rightarrow> int" where
  "level_of_relative r = py_round (max 0 (min (r * 127) 127))"

text \<open>
  The invariant of the two channel tables of the handler, for the configured range
  \<open>lo..hi\<close>: no channel is both available and assigned, every channel of the range is one
  of the two, and no channel is assigned to two fingers.
\<close>

definition channel_invariant :: "int \<Rightarrow> int \<Rightarrow> 'f MidiHandler \<Rightarrow> bool" where
  "channel_invariant lo hi mh =
     (available_channels mh \<inter> ran (active_note_channels mh) = {} \<and>
      available_channels mh \<union> ran (active_note_channels mh) = {lo..hi} \<and>
      (\<forall>f g c. active_note_channels mh f = Some c \<and> active_note_channels mh g = Some c \<longrightarrow> f = g))"

text \<open>
  The zone that one pass of the inner loop of \<open>generate_layout\<close> builds, for column
  \<open>i_col\<close> of row \<open>i_row\<close> and the note at index \<open>m\<close>; and the row that receives the
  note at index \<open>i\<close> of \<open>n\<close> notes: the first \<open>(n + 1) div 2\<close> notes go to row 0, the
  others to row 1.
\<close>

definition column_zone ::
  "int \<Rightarrow> bool \<Rightarrow> (string \<times> int) list \<Rightarrow> nat \<Rightarrow> rat \<Rightarrow> rat \<Rightarrow> nat \<Rightarrow> nat \<Rightarrow> NoteZone" where
  "column_zone padding zone_labels notes_to_display i_row zone_width rh i_col m =
     NoteZone_init (py_int (of_int padding + of_nat i_col * zone_width))
       (py_int (of_int padding + of_nat i_row * rh)) (py_int zone_width) (py_int rh)
       (fst (notes_to_display ! m)) (snd (notes_to_display ! m))
       (if zone_labels then Some (fst (notes_to_display ! m)) else None)"

definition row_of :: "nat \<Rightarrow> nat \<Rightarrow> nat" where
  "row_of n i = (if i < (n + 1) div 2 then 0 else 1)"

text \<open>
  The position of the tip of a finger of a hand when \<open>process_hands_data\<close> accepts it:
  the landmark identifier names a finger, the hand reports that finger as
  \<open>'extended'\<close>, and \<open>_get_finger_tip_coordinate\<close> finds the landmark.
\<close>

definition extended_tip :: "hand \<Rightarrow> int \<Rightarrow> (int \<times> int \<times> rat) option" where
  "extended_tip h tip_id =
     (case LANDMARK_ID_TO_FINGER_NAME tip_id of
        None \<Rightarrow> None
      | Some finger_name \<Rightarrow>
          if finger_states h finger_name = Some ''extended''
          then get_finger_tip_coordinate (landmarks h) tip_id else None)"

text \<open>
  The condition under which part 1 of \<open>process_hands_data\<close> ends the note of finger
  \<open>f\<close> in zone \<open>z\<close>: no hand of the frame has the hand identifier of \<open>f\<close> as its
  \<open>handedness\<close>, or the first such hand does not show the finger extended with a
  landmark, or the tip is not inside \<open>z\<close>.
\<close>

definition finger_released :: "hand list \<Rightarrow> finger_id \<Rightarrow> NoteZone \<Rightarrow> bool" where
  "finger_released hands_data f z =
     (case find (\<lambda>h. handedness h = fst f) hands_data of
        None \<Rightarrow> True
      | Some h \<Rightarrow>
          (case extended_tip h (snd f) of
             None \<Rightarrow> True
           | Some (x, y, _) \<Rightarrow> \<not> is_point_inside z x y))"

text \<open>The finger of an engine call, and whether the call is a \<open>note_on\<close>.\<close>

fun call_finger :: "'f engine_call \<Rightarrow> 'f" where
  "call_finger (NoteOn _ _ f) = f"
| "call_finger (NoteOff _ f) = f"
| "call_finger (PitchBend _ f) = f"
| "call_finger (IntensityUpdate _ f _) = f"

fun is_note_on :: "'f engine_call \<Rightarrow> bool" where
  "is_note_on (NoteOn _ _ _) = True"
| "is_note_on _ = False"

text \<open>
  From state \<open>s\<close> to state \<open>s'\<close> the engine has received further calls, all of them
  with the property \<open>P\<close>, and has lost none.
\<close>

definition emits :: "(finger_id engine_call \<Rightarrow> bool) \<Rightarrow> im_state \<Rightarrow> im_state \<Rightarrow> bool" where
  "emits P s s' =
     (\<exists>cs. calls (audio_engine s') = calls (audio_engine s) @ cs \<and> list_all P cs)"

text \<open>Every channel of the two tables of the handler is a MIDI channel, 1 to 16.\<close>

definition channels_in_range :: "'f MidiHandler \<Rightarrow> bool" where
  "channels_in_range mh =
     (available_channels mh \<union> ran (active_note_channels mh) \<subseteq> {1..16})"


text \<open>
  The two stages of part 1 of a frame for a finger \<open>f\<close> that holds the channel \<open>c\<close> and
  whose note the frame ends. Before the note of \<open>f\<close> is reached, the handler is there
  with its port open and \<open>f\<close> holds \<open>c\<close>, the rectangles of the zones are those of the
  start, and no engine call has been for \<open>f\<close>. After it, \<open>f\<close> holds no channel and \<open>c\<close> is
  available, the zone of the note is not active and has no owner, \<open>f\<close> is marked for
  removal, and the engine calls of the frame for \<open>f\<close>, other than \<open>note_on\<close>, are the one
  \<open>note_off\<close>.
\<close>

definition note_held :: "im_state \<Rightarrow> finger_id \<Rightarrow> int \<Rightarrow> im_state \<Rightarrow> bool" where
  "note_held s f c t =
     ((\<exists>m. midi_handler (audio_engine t) = Some m \<and> port_is_open m \<and> channels_in_range m
           \<and> active_note_channels m f = Some c)
      \<and> (\<forall>b. rect (zone_store t b) = rect (zone_store s b))
      \<and> emits (\<lambda>k. call_finger k \<noteq> f) s t)"

definition note_ended :: "im_state \<Rightarrow> finger_id \<Rightarrow> int \<Rightarrow> note_data \<Rightarrow> im_state \<Rightarrow> bool" where
  "note_ended s f c nd t =
     ((\<exists>m. midi_handler (audio_engine t) = Some m \<and> port_is_open m \<and> channels_in_range m
           \<and> active_note_channels m f = None \<and> c \<in> available_channels m)
      \<and> \<not> is_active (zone_store t (zone nd))
      \<and> active_finger_id (zone_store t (zone nd)) = None
      \<and> f \<in> notes_to_remove t
      \<and> (\<exists>cs. calls (audio_engine t) = calls (audio_engine s) @ cs
             \<and> filter (\<lambda>k. call_finger k = f \<and> \<not> is_note_on k) cs = [NoteOff (midi_note nd) f]))"

section \<open>Example inputs\<close>

text \<open>
  A hand as the detector reports it, with 21 landmarks, all at the pixel \<open>(x, y)\<close>, and
  the index finger extended; two zones side by side; a manager just constructed on them,
  with an open MIDI port and the default channels 2 to 16; and that manager after a frame
  in which the index finger of the right hand has entered the first zone.
\<close>

definition example_hand :: "string \<Rightarrow> int \<Rightarrow> int \<Rightarrow> hand" where
  "example_hand side x y =
     \<lparr> handedness = side,
       finger_states = [''INDEX'' \<mapsto> ''extended''],
       landmarks = map (\<lambda>i. (int i, x, y, 0)) [0..<21] \<rparr>"

definition example_store :: "nat \<Rightarrow> NoteZone" where
  "example_store a =
     (if a = 0 then NoteZone_init 0 0 100 100 ''C4'' 60 None
      else NoteZone_init 100 0 100 100 ''D4'' 62 None)"

definition example_manager :: im_state where
  "example_manager =
     InteractionManager_init
       \<lparr> midi_handler = Some (MidiHandler_init None (Some \<lparr> port_closed = False, sent = [] \<rparr>)),
         calls = [] \<rparr> example_store"

definition right_holds :: im_state where
  "right_holds = snd (process_hands_data Min [example_hand ''Right'' 50 50] [0, 1] example_manager)"

text \<open>
  The manager with one note: the index finger of the right hand holds the first zone, on
  channel 2, as the first frame with that finger at \<open>(50, 50)\<close> leaves it.
\<close>

definition held_note :: im_state where
  "held_note =
     \<lparr> active_notes = [((''Right'', 8), \<lparr> zone = 0, initial_y = 50, midi_note = 60 \<rparr>)],
       target_fingers = {4, 8, 12, 16, 20},
       audio_engine =
         \<lparr> midi_handler =
             Some \<lparr> available_channels = {3..16},
                    active_note_channels = [(''Right'', 8) \<mapsto> 2],
                    port = Some \<lparr> port_closed = False, sent = [Note_on 60 64 1] \<rparr> \<rparr>,
           calls = [NoteOn 60 64 (''Right'', 8)] \<rparr>,
       zone_store = example_store(0 := activate (example_store 0) (''Right'', 8)),
       processed_finger_identifiers = {(''Right'', 8)},
       notes_to_remove = {} \<rparr>"

section \<open>Rounding and the expression mappings\<close>

lemma py_round_lower: "\<lfloor>q\<rfloor> \<le> py_round q"
  by (simp add: py_round_def Let_def)

lemma py_round_upper: "py_round q \<le> \<lfloor>q\<rfloor> + 1"
  by (simp add: py_round_def Let_def)

lemma py_round_of_int: "py_round (of_int n) = n"
  by (simp add: py_round_def Let_def)

lemma py_round_mono:
  assumes "a \<le> b"
  shows "py_round a \<le> py_round b"
proof (cases "\<lfloor>a\<rfloor> = \<lfloor>b\<rfloor>")
  case True
  with assms have "a - of_int \<lfloor>a\<rfloor> \<le> b - of_int \<lfloor>b\<rfloor>"
    by simp
  with True show ?thesis
    by (auto simp: py_round_def Let_def)
next
  case False
  with assms have "\<lfloor>a\<rfloor> < \<lfloor>b\<rfloor>"
    using floor_mono [of a b] by linarith
  then have "py_round a \<le> \<lfloor>b\<rfloor>"
    using py_round_upper [of a] by linarith
  then show ?thesis
    using py_round_lower [of b] by linarith
qed

lemma clamp_mono:
  fixes a b lo hi :: "'a::linorder"
  shows "a \<le> b \<Longrightarrow> max lo (min hi a) \<le> max lo (min hi b)"
  by (auto simp: min_def max_def)

lemma calculate_pitch_bend_eq:
  "w \<noteq> 0 \<Longrightarrow> calculate_pitch_bend x (zx, zy, w, h) =
     bend_of_relative (max 0 (min 1 ((x - of_int zx) / of_int w)))"
  by (simp add: calculate_pitch_bend_def bend_of_relative_def Let_def pb_map_value_def
      midi_bend_max_abs_value_def)

lemma bend_of_relative_mono: "r1 \<le> r2 \<Longrightarrow> bend_of_relative r1 \<le> bend_of_relative r2"
  unfolding bend_of_relative_def
  by (intro clamp_mono py_round_mono) simp

lemma bend_of_relative_0: "bend_of_relative 0 = - 8191"
  using py_round_of_int [of "- 8191"] by (simp add: bend_of_relative_def)

lemma bend_of_relative_1: "bend_of_relative 1 = 8191"
  using py_round_of_int [of "8191"] by (simp add: bend_of_relative_def)

lemma calculate_initial_velocity_eq:
  "h \<noteq> 0 \<Longrightarrow> calculate_initial_velocity y (zx, zy, w, h) =
     level_of_relative (max 0 (min 1 ((y - of_int zy) / of_int h)))"
  by (simp add: calculate_initial_velocity_def level_of_relative_def Let_def vi_map_value_def
      midi_min_value_def midi_max_value_def)

lemma level_of_relative_range: "0 \<le> level_of_relative r \<and> level_of_relative r \<le> 127"
proof -
  let ?v = "max 0 (min (r * 127) 127)"
  have "py_round (of_int 0) \<le> py_round ?v" "py_round ?v \<le> py_round (of_int 127)"
    by (rule py_round_mono, simp)+
  then show ?thesis
    unfolding py_round_of_int level_of_relative_def by simp
qed

lemma velocity_eq_intensity:
  "calculate_initial_velocity y r = calculate_continuous_intensity y r"
  by (simp add: calculate_initial_velocity_def calculate_continuous_intensity_def)

lemma velocity_range:
  "0 \<le> calculate_initial_velocity y r \<and> calculate_initial_velocity y r \<le> 127"
proof -
  obtain zx zy w h where r: "r = (zx, zy, w, h)"
    by (cases r) auto
  show ?thesis
  proof (cases "h = 0")
    case True
    then show ?thesis
      by (simp add: r calculate_initial_velocity_def midi_min_value_def)
  next
    case False
    then show ?thesis
      by (simp add: r calculate_initial_velocity_eq level_of_relative_range)
  qed
qed

lemma velocity_zero_height: "calculate_initial_velocity y (zx, zy, w, 0) = 0"
  by (simp add: calculate_initial_velocity_def midi_min_value_def)

lemma velocity_values:
  "calculate_initial_velocity 100 (50, 100, 100, 200) = 0"
  "calculate_initial_velocity 200 (50, 100, 100, 200) = 64"
  "calculate_initial_velocity 300 (50, 100, 100, 200) = 127"
  by code_simp+

text \<open>
  Claim C9. \<open>calculate_initial_velocity\<close> and \<open>calculate_continuous_intensity\<close> return
  the same integer for every finger y coordinate and every zone rectangle, and that integer
  lies in 0..127. For the rectangle (50, 100, 100, 200) it is 0 at y = 100, 64 at y = 200
  and 127 at y = 300, and for every zone of height zero it is 0.
\<close>

theorem velocity_intensity_C9:
  "calculate_initial_velocity y r = calculate_continuous_intensity y r
   \<and> 0 \<le> calculate_initial_velocity y r \<and> calculate_initial_velocity y r \<le> 127
   \<and> calculate_initial_velocity 100 (50, 100, 100, 200) = 0
   \<and> calculate_initial_velocity 200 (50, 100, 100, 200) = 64
   \<and> calculate_initial_velocity 300 (50, 100, 100, 200) = 127
   \<and> calculate_initial_velocity y (zx, zy, w, 0) = 0"
  using velocity_eq_intensity [of y r] velocity_range [of y r] velocity_values
    velocity_zero_height [of y zx zy w]
  by (simp only: simp_thms)

lemma pitch_bend_mono:
  assumes "0 < w" and "x1 \<le> x2"
  shows "calculate_pitch_bend x1 (zx, zy, w, h) \<le> calculate_pitch_bend x2 (zx, zy, w, h)"
proof -
  from assms have "(x1 - of_int zx) / (of_int w :: rat) \<le> (x2 - of_int zx) / of_int w"
    by (simp add: divide_right_mono)
  then have "max 0 (min 1 ((x1 - of_int zx) / (of_int w :: rat)))
      \<le> max 0 (min 1 ((x2 - of_int zx) / of_int w))"
    by (rule clamp_mono)
  then show ?thesis
    using assms(1) by (simp add: calculate_pitch_bend_eq bend_of_relative_mono)
qed

lemma pitch_bend_left:
  assumes "0 < w" and "x \<le> of_int zx"
  shows "calculate_pitch_bend x (zx, zy, w, h) = - 8191"
proof -
  from assms have "(x - of_int zx) / (of_int w :: rat) \<le> 0"
    by (simp add: divide_nonpos_pos)
  then have "max 0 (min 1 ((x - of_int zx) / (of_int w :: rat))) = 0"
    by (simp add: max_def min_def)
  with assms(1) show ?thesis
    by (simp add: calculate_pitch_bend_eq bend_of_relative_0)
qed

lemma pitch_bend_right:
  assumes "0 < w" and "of_int (zx + w) \<le> x"
  shows "calculate_pitch_bend x (zx, zy, w, h) = 8191"
proof -
  from assms have "1 \<le> (x - of_int zx) / (of_int w :: rat)"
    by (simp add: pos_le_divide_eq)
  then have "max 0 (min 1 ((x - of_int zx) / (of_int w :: rat))) = 1"
    by (simp add: max_def min_def)
  with assms(1) show ?thesis
    by (simp add: calculate_pitch_bend_eq bend_of_relative_1)
qed

lemma pitch_bend_zero_width: "calculate_pitch_bend x (zx, zy, 0, h) = 0"
  by (simp add: calculate_pitch_bend_def)

lemma pitch_bend_centre: "calculate_pitch_bend 200 (100, 0, 200, 100) = 0"
  by code_simp

text \<open>
  Claim C8. \<open>calculate_pitch_bend\<close> is monotone non-decreasing in the finger's x for
  every zone of positive width. For the rectangle (100, 0, 200, 100) it returns -8191 at
  x = 100, 0 at x = 200 and 8191 at x = 300, and outside the interval from 100 to 300 the
  value of the nearest end. For every zone of width zero it returns 0.
\<close>

theorem pitch_bend_C8:
  "(0 < w \<longrightarrow> x1 \<le> x2 \<longrightarrow>
      calculate_pitch_bend x1 (zx, zy, w, h) \<le> calculate_pitch_bend x2 (zx, zy, w, h))
   \<and> calculate_pitch_bend 100 (100, 0, 200, 100) = - 8191
   \<and> calculate_pitch_bend 200 (100, 0, 200, 100) = 0
   \<and> calculate_pitch_bend 300 (100, 0, 200, 100) = 8191
   \<and> (xl < 100 \<longrightarrow> calculate_pitch_bend xl (100, 0, 200, 100) = - 8191)
   \<and> (300 < xr \<longrightarrow> calculate_pitch_bend xr (100, 0, 200, 100) = 8191)
   \<and> calculate_pitch_bend x (zx, zy, 0, h) = 0"
proof (intro conjI impI)
  show "calculate_pitch_bend 100 (100, 0, 200, 100) = - 8191"
    using pitch_bend_left [of 200 100 100 0 100] by simp
  show "calculate_pitch_bend 200 (100, 0, 200, 100) = 0"
    by (rule pitch_bend_centre)
  show "calculate_pitch_bend 300 (100, 0, 200, 100) = 8191"
    using pitch_bend_right [of 200 100 300 0 100] by simp
  show "calculate_pitch_bend xl (100, 0, 200, 100) = - 8191" if "xl < 100"
    using that pitch_bend_left [of 200 xl 100 0 100] by simp
  show "calculate_pitch_bend xr (100, 0, 200, 100) = 8191" if "300 < xr"
    using that pitch_bend_right [of 200 100 xr 0 100] by simp
  show "calculate_pitch_bend x (zx, zy, 0, h) = 0"
    by (rule pitch_bend_zero_width)
qed (rule pitch_bend_mono)

theorem pitch_bend_C8_witness:
  "(0 < (200::int) \<and> (150::rat) \<le> 250 \<and> (50::rat) < 100 \<and> (300::rat) < 350)
   \<and> calculate_pitch_bend 150 (100, 0, 200, 100) \<le> calculate_pitch_bend 250 (100, 0, 200, 100)
   \<and> calculate_pitch_bend 50 (100, 0, 200, 100) = - 8191
   \<and> calculate_pitch_bend 350 (100, 0, 200, 100) = 8191"
  using pitch_bend_C8 [of 200 150 250 100 0 100 50 350 0] by simp

section \<open>The channel pool of the MIDI handler\<close>

lemma build_and_send_tables [simp]:
  "available_channels (snd (build_and_send m mh)) = available_channels mh"
  "active_note_channels (snd (build_and_send m mh)) = active_note_channels mh"
  by (simp_all add: build_and_send_def split: sum.splits)

lemma build_and_send_invariant [simp]:
  "channel_invariant lo hi (snd (build_and_send m mh)) = channel_invariant lo hi mh"
  by (simp add: channel_invariant_def)

lemma ran_upd_fresh: "m f = None \<Longrightarrow> ran (m(f \<mapsto> c)) = insert c (ran m)"
  by (rule ran_map_upd)

lemma ran_delete_inj:
  assumes "m f = Some c"
    and "\<forall>f g c. m f = Some c \<and> m g = Some c \<longrightarrow> f = g"
  shows "ran (m(f := None)) = ran m - {c}"
proof (rule set_eqI)
  fix x
  show "x \<in> ran (m(f := None)) \<longleftrightarrow> x \<in> ran m - {c}"
  proof
    assume "x \<in> ran (m(f := None))"
    then obtain a where a: "a \<noteq> f" "m a = Some x"
      by (auto simp: ran_def split: if_splits)
    with assms have "x \<noteq> c"
      by blast
    with a show "x \<in> ran m - {c}"
      by (auto simp: ran_def)
  next
    assume "x \<in> ran m - {c}"
    then obtain a where a: "m a = Some x" "x \<noteq> c"
      by (auto simp: ran_def)
    with assms(1) have "a \<noteq> f"
      by auto
    with a show "x \<in> ran (m(f := None))"
      by (auto simp: ran_def)
  qed
qed

lemma channel_invariant_init:
  "mpe_ch_range setting = (lo, hi) \<Longrightarrow> channel_invariant lo hi (MidiHandler_init setting p)"
  by (simp add: channel_invariant_def MidiHandler_init_def)

lemma send_note_on_invariant:
  assumes pop: "pop_returns_member pop"
    and inv: "channel_invariant lo hi mh"
  shows "channel_invariant lo hi (snd (send_note_on pop n v f mh))"
proof (cases "port_is_open mh \<and> active_note_channels mh f = None \<and> available_channels mh \<noteq> {}")
  case False
  with inv show ?thesis
    by (auto simp: send_note_on_def split: option.splits)
next
  case True
  let ?c = "pop (available_channels mh)"
  from inv have "available_channels mh \<subseteq> {lo..hi}"
    by (auto simp: channel_invariant_def)
  then have "finite (available_channels mh)"
    by (rule finite_subset) simp
  with pop True have c: "?c \<in> available_channels mh"
    by (simp add: pop_returns_member_def)
  with inv have fresh: "?c \<notin> ran (active_note_channels mh)"
    by (auto simp: channel_invariant_def)
  let ?mh = "mh\<lparr> available_channels := available_channels mh - {?c},
                  active_note_channels := (active_note_channels mh)(f \<mapsto> ?c) \<rparr>"
  have "channel_invariant lo hi ?mh"
    unfolding channel_invariant_def
  proof (intro conjI)
    show "available_channels ?mh \<inter> ran (active_note_channels ?mh) = {}"
      using inv True by (auto simp: channel_invariant_def ran_upd_fresh)
    show "available_channels ?mh \<union> ran (active_note_channels ?mh) = {lo..hi}"
      using inv True c by (auto simp: channel_invariant_def ran_upd_fresh)
    show "\<forall>g h d. active_note_channels ?mh g = Some d \<and> active_note_channels ?mh h = Some d \<longrightarrow> g = h"
      using inv fresh by (auto simp: channel_invariant_def ran_def split: if_splits)
  qed
  with True show ?thesis
    by (simp add: send_note_on_def Let_def)
qed

lemma send_note_off_invariant:
  assumes inv: "channel_invariant lo hi mh"
  shows "channel_invariant lo hi (snd (send_note_off n f mh))"
proof (cases "port_is_open mh")
  case False
  with inv show ?thesis
    by (simp add: send_note_off_def)
next
  case True
  show ?thesis
  proof (cases "active_note_channels mh f")
    case None
    with inv True show ?thesis
      by (simp add: send_note_off_def)
  next
    case (Some c)
    let ?mh = "mh\<lparr> active_note_channels := (active_note_channels mh)(f := None),
                    available_channels := insert c (available_channels mh) \<rparr>"
    from inv have inj: "\<forall>f g c. active_note_channels mh f = Some c \<and> active_note_channels mh g = Some c \<longrightarrow> f = g"
      by (simp add: channel_invariant_def)
    have r: "ran ((active_note_channels mh)(f := None)) = ran (active_note_channels mh) - {c}"
      by (rule ran_delete_inj [OF Some inj])
    from Some have cr: "c \<in> ran (active_note_channels mh)"
      by (auto simp: ran_def)
    have "channel_invariant lo hi ?mh"
      unfolding channel_invariant_def
    proof (intro conjI)
      show "available_channels ?mh \<inter> ran (active_note_channels ?mh) = {}"
        using inv by (auto simp: r channel_invariant_def)
      show "available_channels ?mh \<union> ran (active_note_channels ?mh) = {lo..hi}"
        using inv cr by (auto simp: r channel_invariant_def)
      show "\<forall>g h d. active_note_channels ?mh g = Some d \<and> active_note_channels ?mh h = Some d \<longrightarrow> g = h"
        using inj by (auto split: if_splits)
    qed
    with True Some show ?thesis
      by (simp add: send_note_off_def Let_def)
  qed
qed

lemma run_calls_invariant:
  assumes "pop_returns_member pop" and "channel_invariant lo hi mh"
  shows "channel_invariant lo hi (run_calls pop cs mh)"
  using assms(2) unfolding run_calls_def
proof (induction cs arbitrary: mh)
  case Nil
  then show ?case by simp
next
  case (Cons c cs)
  have "channel_invariant lo hi (run_call pop c mh)"
    using Cons.prems assms(1)
    by (cases c) (simp_all add: send_note_on_invariant send_note_off_invariant)
  then show ?case
    using Cons.IH by simp
qed

text \<open>
  Claim C1. After any finite sequence of \<open>send_note_on\<close> and \<open>send_note_off\<close> calls on a
  handler that was just constructed with an open port and the channel range \<open>lo..hi\<close>,
  the set of available channels and the set of channels in the finger-to-channel map are
  disjoint, their union is \<open>{lo..hi}\<close>, and no two distinct fingers hold the same channel.
  This holds whichever element \<open>set.pop\<close> returns, and also after a call that raised.
\<close>

theorem channel_pool_C1:
  assumes "pop_returns_member pop"
    and "mpe_ch_range setting = (lo, hi)"
    and "mh = run_calls pop cs (MidiHandler_init setting (Some \<lparr> port_closed = False, sent = [] \<rparr>))"
  shows "available_channels mh \<inter> ran (active_note_channels mh) = {}
    \<and> available_channels mh \<union> ran (active_note_channels mh) = {lo..hi}
    \<and> (\<forall>f g c. active_note_channels mh f = Some c \<and> active_note_channels mh g = Some c \<longrightarrow> f = g)"
  using run_calls_invariant [OF assms(1) channel_invariant_init [OF assms(2)], where cs = cs]
  unfolding assms(3) channel_invariant_def by blast

theorem channel_pool_C1_witness:
  "pop_returns_member Min \<and> mpe_ch_range (Some [2, 3]) = (2, 3)
   \<and> (let mh = run_calls Min [Note_on_call 60 100 ''f1'', Note_on_call 62 100 ''f2'',
                  Note_on_call 64 100 ''f3'', Note_off_call 60 ''f1'']
                 (MidiHandler_init (Some [2, 3]) (Some \<lparr> port_closed = False, sent = [] \<rparr>))
       in available_channels mh \<inter> ran (active_note_channels mh) = {}
          \<and> available_channels mh \<union> ran (active_note_channels mh) = {2..3}
          \<and> (\<forall>f g c. active_note_channels mh f = Some c \<and> active_note_channels mh g = Some c \<longrightarrow> f = g))"
proof -
  have a: "pop_returns_member Min"
    by (simp add: pop_returns_member_def)
  have b: "mpe_ch_range (Some [2, 3]) = (2, 3)"
    by (simp add: mpe_ch_range_def)
  show ?thesis
    using a b channel_pool_C1 [OF a b refl] by (simp add: Let_def)
qed

text \<open>
  Claim C2. On an open port, when no channel is available and the finger holds none,
  \<open>send_note_on\<close> raises nothing and returns the handler as it was: the two channel
  tables are unchanged and no message has been added to those sent.
\<close>

theorem exhaustion_C2:
  assumes "port_is_open mh"
    and "available_channels mh = {}"
    and "active_note_channels mh finger = None"
  shows "send_note_on pop n v finger mh = (None, mh)"
  using assms by (simp add: send_note_on_def)

theorem exhaustion_C2_witness:
  "(let mh = \<lparr> available_channels = {},
               active_note_channels = [''f1'' \<mapsto> 2, ''f2'' \<mapsto> 3],
               port = Some \<lparr> port_closed = False, sent = [Note_on 60 100 1, Note_on 62 100 2] \<rparr> \<rparr>
    in port_is_open mh \<and> available_channels mh = {} \<and> active_note_channels mh ''f3'' = None
       \<and> send_note_on Min 64 100 ''f3'' mh = (None, mh))"
  using exhaustion_C2 [of "\<lparr> available_channels = {},
               active_note_channels = [''f1'' \<mapsto> 2, ''f2'' \<mapsto> 3],
               port = Some \<lparr> port_closed = False, sent = [Note_on 60 100 1, Note_on 62 100 2] \<rparr> \<rparr>"
           "''f3''" Min 64 100]
  by (simp add: port_is_open_def Let_def)

text \<open>
  Claim C10. When the port is not open (\<open>self.port\<close> is \<open>None\<close>, or closed), each of the
  five send methods raises nothing and returns the handler as it was: nothing is sent and
  the two channel tables are unchanged, so a note-on takes no channel from the pool.
\<close>

theorem no_port_C10:
  assumes "\<not> port_is_open mh"
  shows "send_note_on pop n v f mh = (None, mh)
    \<and> send_note_off n f mh = (None, mh)
    \<and> send_pitch_bend b f mh = (None, mh)
    \<and> send_channel_pressure pr f mh = (None, mh)
    \<and> send_control_change k cv f mh = (None, mh)"
  using assms
  by (simp add: send_note_on_def send_note_off_def send_pitch_bend_def
      send_channel_pressure_def send_control_change_def)

theorem no_port_C10_witness:
  "(let mh = \<lparr> available_channels = {3..16},
               active_note_channels = [''f1'' \<mapsto> 2],
               port = Some \<lparr> port_closed = True, sent = [Note_on 60 100 1] \<rparr> \<rparr>
    in \<not> port_is_open mh
       \<and> send_note_on Min 64 100 ''f2'' mh = (None, mh)
       \<and> send_note_off 60 ''f1'' mh = (None, mh)
       \<and> send_pitch_bend 100 ''f1'' mh = (None, mh)
       \<and> send_channel_pressure 50 ''f1'' mh = (None, mh)
       \<and> send_control_change 74 50 ''f1'' mh = (None, mh))"
  using no_port_C10 [of "\<lparr> available_channels = {3..16},
               active_note_channels = [''f1'' \<mapsto> 2],
               port = Some \<lparr> port_closed = True, sent = [Note_on 60 100 1] \<rparr> \<rparr>"
           Min 64 100 "''f2''" 100 50 74 50]
        no_port_C10 [of "\<lparr> available_channels = {3..16},
               active_note_channels = [''f1'' \<mapsto> 2],
               port = Some \<lparr> port_closed = True, sent = [Note_on 60 100 1] \<rparr> \<rparr>"
           Min 60 100 "''f1''" 100 50 74 50]
  by (simp add: port_is_open_def Let_def)

section \<open>The rows of the layout\<close>

lemma row_counts_Suc:
  "row_counts (Suc n) = (row_counts n)[n mod 2 := row_counts n ! (n mod 2) + 1]"
  by (simp add: row_counts_def num_rows_def)

lemma row_counts_eq: "row_counts n = [(n + 1) div 2, n div 2]"
proof (induction n)
  case 0
  show ?case by (simp add: row_counts_def num_rows_def numeral_2_eq_2)
next
  case (Suc n)
  show ?case
  proof (cases "even n")
    case True
    then have "n mod 2 = 0" by presburger
    moreover from True have "(Suc n + 1) div 2 = (n + 1) div 2 + 1" "Suc n div 2 = n div 2"
      by presburger+
    ultimately show ?thesis by (simp add: row_counts_Suc Suc.IH)
  next
    case False
    then have "n mod 2 = 1" by presburger
    moreover from False have "(Suc n + 1) div 2 = (n + 1) div 2" "Suc n div 2 = n div 2 + 1"
      by presburger+
    ultimately show ?thesis by (simp add: row_counts_Suc Suc.IH)
  qed
qed

lemma place_columns_eq:
  "j + length cols \<le> length nts \<Longrightarrow>
   place_columns p zl nts r zw rh cols (zs, j) =
     (zs @ map2 (column_zone p zl nts r zw rh) cols [j..<j + length cols], j + length cols)"
proof (induction cols arbitrary: zs j)
  case Nil
  show ?case by simp
next
  case (Cons c cols)
  from Cons.prems have lt: "j < length nts" and le: "Suc j + length cols \<le> length nts"
    by simp_all
  have up: "[j..<Suc (j + length cols)] = j # [Suc j..<Suc (j + length cols)]"
    by (rule upt_conv_Cons) simp
  show ?case
    using lt Cons.IH [OF le]
    by (simp add: up column_zone_def split_beta Let_def del: upt_Suc)
qed

lemma zone_y_column_zone [simp]:
  "zone_y (column_zone p zl nts r zw rh c m) = py_int (of_int p + of_nat r * rh)"
  by (simp add: zone_y_def column_zone_def NoteZone_init_def)

lemma note_column_zone [simp]:
  "note_name (column_zone p zl nts r zw rh c m) = fst (nts ! m)"
  "note_midi_value (column_zone p zl nts r zw rh c m) = snd (nts ! m)"
  by (simp_all add: column_zone_def NoteZone_init_def)

lemma generate_layout_eq:
  assumes "nts \<noteq> []"
  defines "n \<equiv> length nts"
  defines "k0 \<equiv> (n + 1) div 2"
  shows "generate_layout sw sh p zl nts =
     map2 (column_zone p zl nts 0 (of_int (zone_area_width sw p) / of_nat k0) (row_height sh p))
       [0..<k0] [0..<k0]
     @ map2 (column_zone p zl nts 1 (of_int (zone_area_width sw p) / of_nat (n div 2)) (row_height sh p))
       [0..<n div 2] [k0..<n]"
proof -
  from assms have n: "0 < n" by simp
  then have k0: "0 < k0" "k0 \<le> n" "k0 + n div 2 = n"
    unfolding k0_def by presburger+
  have rc: "row_counts (length nts) = [k0, n div 2]"
    unfolding k0_def n_def by (rule row_counts_eq)
  have first: "place_columns p zl nts 0 zw rh [0..<k0] ([], 0) =
      (map2 (column_zone p zl nts 0 zw rh) [0..<k0] [0..<k0], k0)" for zw rh
    using place_columns_eq [of 0 "[0..<k0]" nts p zl 0 zw rh "[]"] k0 by (simp add: n_def)
  have second: "place_columns p zl nts (Suc 0) zw rh [0..<n div 2] (zs, k0) =
      (zs @ map2 (column_zone p zl nts (Suc 0) zw rh) [0..<n div 2] [k0..<n], n)" for zw rh zs
    using place_columns_eq [of k0 "[0..<n div 2]" nts p zl "Suc 0" zw rh zs] k0 by (simp add: n_def)
  have two: "[0..<num_rows] = [0, 1]"
    by (simp add: num_rows_def upt_conv_Cons)
  show ?thesis
  proof (cases "n div 2 = 0")
    case True
    with k0(1) assms(1) show ?thesis
      by (simp add: generate_layout_def two rc first Let_def)
  next
    case False
    with k0(1) assms(1) show ?thesis
      by (simp add: generate_layout_def two rc first second Let_def)
  qed
qed

lemma length_generate_layout: "length (generate_layout sw sh p zl nts) = length nts"
proof (cases "nts = []")
  case True
  then show ?thesis by (simp add: generate_layout_def)
next
  case False
  have "(length nts + 1) div 2 + length nts div 2 = length nts" by presburger
  then show ?thesis
    by (simp add: generate_layout_eq [OF False])
qed

lemma nth_generate_layout:
  assumes "i < length nts"
  shows "\<exists>zw c. generate_layout sw sh p zl nts ! i =
           column_zone p zl nts (row_of (length nts) i) zw (row_height sh p) c i"
proof -
  let ?n = "length nts"
  let ?k0 = "(?n + 1) div 2"
  from assms have ne: "nts \<noteq> []" by auto
  have sum: "?k0 + ?n div 2 = ?n" by presburger
  show ?thesis
  proof (cases "i < ?k0")
    case True
    then show ?thesis
      by (simp add: generate_layout_eq [OF ne] nth_append row_of_def) blast
  next
    case False
    with assms sum have "i - ?k0 < ?n div 2" by linarith
    with False show ?thesis
      by (simp add: generate_layout_eq [OF ne] nth_append row_of_def) blast
  qed
qed

text \<open>
  Claim C7, amended. \<open>generate_layout\<close> makes one zone for each note, in the order of the
  notes. The round robin only counts the notes of each row, \<open>(n + 1) div 2\<close> for row 0
  and \<open>n div 2\<close> for row 1; the rows are then filled one after the other, so note \<open>i\<close> is
  in row 0 when \<open>i < (n + 1) div 2\<close> and in row 1 otherwise, and the y coordinate of its
  zone is \<open>int(padding + row * row_height)\<close>.
\<close>

theorem layout_rows_C7:
  assumes "i < length notes_to_display"
  shows "length (generate_layout screen_width screen_height padding zone_labels notes_to_display)
           = length notes_to_display
    \<and> note_name (generate_layout screen_width screen_height padding zone_labels notes_to_display ! i)
           = fst (notes_to_display ! i)
    \<and> note_midi_value (generate_layout screen_width screen_height padding zone_labels notes_to_display ! i)
           = snd (notes_to_display ! i)
    \<and> zone_y (generate_layout screen_width screen_height padding zone_labels notes_to_display ! i)
           = py_int (of_int padding
                + of_nat (row_of (length notes_to_display) i) * row_height screen_height padding)"
proof -
  from nth_generate_layout [OF assms] obtain zw c where
    "generate_layout screen_width screen_height padding zone_labels notes_to_display ! i =
       column_zone padding zone_labels notes_to_display (row_of (length notes_to_display) i) zw
         (row_height screen_height padding) c i"
    by blast
  then show ?thesis
    by (simp add: length_generate_layout)
qed

theorem layout_rows_C7_witness:
  "(2::nat) < length [(''C4'', 60::int), (''D4'', 62), (''E4'', 64)]
   \<and> length (generate_layout 1280 720 10 True [(''C4'', 60), (''D4'', 62), (''E4'', 64)]) = 3
   \<and> note_name (generate_layout 1280 720 10 True [(''C4'', 60), (''D4'', 62), (''E4'', 64)] ! 2) = ''E4''
   \<and> note_midi_value (generate_layout 1280 720 10 True [(''C4'', 60), (''D4'', 62), (''E4'', 64)] ! 2) = 64
   \<and> zone_y (generate_layout 1280 720 10 True [(''C4'', 60), (''D4'', 62), (''E4'', 64)] ! 2) = 360"
proof -
  have r: "py_int (of_int 10
      + of_nat (row_of (length [(''C4'', 60::int), (''D4'', 62), (''E4'', 64)]) 2) * row_height 720 10) = 360"
    by code_simp
  show ?thesis
    using layout_rows_C7 [of 2 "[(''C4'', 60), (''D4'', 62), (''E4'', 64)]" 1280 720 10 True] r
    by simp
qed

text \<open>
  Claim C7 as stated fails: of three notes on a 1280 by 720 screen with padding 10, the
  note at index 1 is in row 0 (y = 10), not in row \<open>1 mod 2\<close> (y = 360).
\<close>

theorem layout_rows_C7_counterexample:
  "zone_y (generate_layout 1280 720 10 True [(''C4'', 60), (''D4'', 62), (''E4'', 64)] ! 1) = 10
   \<and> py_int (of_int 10 + of_nat (1 mod 2) * row_height 720 10) = 360
   \<and> zone_y (generate_layout 1280 720 10 True [(''C4'', 60), (''D4'', 62), (''E4'', 64)] ! 1)
       \<noteq> py_int (of_int 10 + of_nat (1 mod 2) * row_height 720 10)"
  by code_simp

section \<open>The frames of the interaction manager\<close>

lemma emits_refl [simp]: "emits P s s"
  by (simp add: emits_def)

lemma emits_trans: "emits P s s' \<Longrightarrow> emits P s' s'' \<Longrightarrow> emits P s s''"
  by (auto simp: emits_def)

lemma emits_weaken: "emits P s s' \<Longrightarrow> (\<And>c. P c \<Longrightarrow> Q c) \<Longrightarrow> emits Q s s'"
  by (auto simp: emits_def list_all_iff)

lemma emits_same_calls:
  "calls (audio_engine s') = calls (audio_engine s) \<Longrightarrow> emits P s s'"
  by (simp add: emits_def)

lemma emits_append:
  "calls (audio_engine s') = calls (audio_engine s) @ cs \<Longrightarrow> list_all P cs \<Longrightarrow> emits P s s'"
  by (auto simp: emits_def)

lemma with_midi_calls [simp]: "calls (snd (with_midi send ae)) = calls ae"
  by (simp add: with_midi_def split: option.splits prod.splits)

lemma calls_engine [simp]:
  "calls (snd (note_on pop n v f ae)) = calls ae @ [NoteOn n v f]"
  "calls (snd (note_off n f ae)) = calls ae @ [NoteOff n f]"
  "calls (snd (pitch_bend b f ae)) = calls ae @ [PitchBend b f]"
  "calls (snd (intensity_update i f n ae)) = calls ae @ [IntensityUpdate i f n]"
  by (simp_all add: note_on_def note_off_def pitch_bend_def intensity_update_def)

lemma note_onD: "note_on pop n v f ae = (e, ae') \<Longrightarrow> calls ae' = calls ae @ [NoteOn n v f]"
  using calls_engine(1) [of pop n v f ae] by simp

lemma note_offD: "note_off n f ae = (e, ae') \<Longrightarrow> calls ae' = calls ae @ [NoteOff n f]"
  using calls_engine(2) [of n f ae] by simp

lemma pitch_bendD: "pitch_bend b f ae = (e, ae') \<Longrightarrow> calls ae' = calls ae @ [PitchBend b f]"
  using calls_engine(3) [of b f ae] by simp

lemma intensity_updateD:
  "intensity_update i f n ae = (e, ae') \<Longrightarrow> calls ae' = calls ae @ [IntensityUpdate i f n]"
  using calls_engine(4) [of i f n ae] by simp

lemma for_each_inv:
  assumes "I s" and "\<And>x t. x \<in> set xs \<Longrightarrow> I t \<Longrightarrow> I (snd (body x t))"
  shows "I (snd (for_each body xs s))"
  using assms
proof (induction xs arbitrary: s)
  case Nil
  then show ?case by simp
next
  case (Cons x xs)
  have Ix: "I (snd (body x s))"
    using Cons.prems by simp
  show ?case
  proof (cases "body x s")
    case (Pair e s')
    with Ix have s': "I s'" by simp
    show ?thesis
    proof (cases e)
      case None
      with Pair Cons.IH [OF s'] Cons.prems(2) show ?thesis by simp
    next
      case (Some err)
      with Pair s' show ?thesis by simp
    qed
  qed
qed

lemma find_hand_eq:
  "find_hand hs f nd s =
     (case find (\<lambda>h. handedness h = fst f) hs of
        None \<Rightarrow> (None, False, False, s)
      | Some h \<Rightarrow> (case sustain_hand h f nd s of (e, valid, s') \<Rightarrow> (e, True, valid, s')))"
  by (induction hs) simp_all

lemma sustain_hand_frame:
  "zone_store (snd (snd (sustain_hand h f nd s))) = zone_store s"
  "active_notes (snd (snd (sustain_hand h f nd s))) = active_notes s"
  "notes_to_remove (snd (snd (sustain_hand h f nd s))) = notes_to_remove s"
  "target_fingers (snd (snd (sustain_hand h f nd s))) = target_fingers s"
  by (simp_all add: sustain_hand_def Let_def split: option.splits prod.splits)

lemma sustain_hand_emits:
  "emits (\<lambda>c. call_finger c = f \<and> \<not> is_note_on c) s (snd (snd (sustain_hand h f nd s)))"
  by (auto simp: sustain_hand_def Let_def emits_def split: option.splits prod.splits
      dest!: pitch_bendD intensity_updateD)

lemma sustain_hand_valid:
  "fst (sustain_hand h f nd s) = None \<Longrightarrow>
   fst (snd (sustain_hand h f nd s)) =
     (case extended_tip h (snd f) of
        None \<Rightarrow> False
      | Some (x, y, _) \<Rightarrow> is_point_inside (zone_store s (zone nd)) x y)"
  by (auto simp: sustain_hand_def extended_tip_def Let_def split: option.splits prod.splits)

lemma build_and_send_port_is_open [simp]:
  "port_is_open (snd (build_and_send m mh)) = port_is_open mh"
  by (simp add: build_and_send_def port_is_open_def split: sum.splits option.splits)

lemma build_and_send_channels_in_range [simp]:
  "channels_in_range (snd (build_and_send m mh)) = channels_in_range mh"
  by (simp add: channels_in_range_def)

lemma build_and_send_ok: "msg_ok m \<Longrightarrow> fst (build_and_send m mh) = None"
  by (simp add: build_and_send_def mido_Message_def)

lemma channel_ok_held:
  "channels_in_range mh \<Longrightarrow> active_note_channels mh f = Some c \<Longrightarrow> channel_ok (c - 1)"
  by (auto simp: channels_in_range_def channel_ok_def ran_def)

lemma send_pitch_bend_tables [simp]:
  "available_channels (snd (send_pitch_bend b f mh)) = available_channels mh"
  "active_note_channels (snd (send_pitch_bend b f mh)) = active_note_channels mh"
  "port_is_open (snd (send_pitch_bend b f mh)) = port_is_open mh"
  "channels_in_range (snd (send_pitch_bend b f mh)) = channels_in_range mh"
  by (simp_all add: send_pitch_bend_def split: option.splits)

lemma send_channel_pressure_tables [simp]:
  "available_channels (snd (send_channel_pressure v f mh)) = available_channels mh"
  "active_note_channels (snd (send_channel_pressure v f mh)) = active_note_channels mh"
  "port_is_open (snd (send_channel_pressure v f mh)) = port_is_open mh"
  "channels_in_range (snd (send_channel_pressure v f mh)) = channels_in_range mh"
  by (simp_all add: send_channel_pressure_def split: option.splits)

lemma send_pitch_bend_ok:
  "channels_in_range mh \<Longrightarrow> pitch_ok b \<Longrightarrow> fst (send_pitch_bend b f mh) = None"
  by (auto simp: send_pitch_bend_def build_and_send_ok channel_ok_held split: option.splits)

lemma send_channel_pressure_ok:
  "channels_in_range mh \<Longrightarrow> data_byte_ok v \<Longrightarrow> fst (send_channel_pressure v f mh) = None"
  by (auto simp: send_channel_pressure_def build_and_send_ok channel_ok_held split: option.splits)

lemma send_note_off_ok:
  "channels_in_range mh \<Longrightarrow> data_byte_ok n \<Longrightarrow> fst (send_note_off n f mh) = None"
  by (auto simp: send_note_off_def Let_def build_and_send_ok channel_ok_held data_byte_ok_def
      split: option.splits)

lemma port_is_open_tables [simp]:
  "port_is_open (mh\<lparr> active_note_channels := m \<rparr>) = port_is_open mh"
  "port_is_open (mh\<lparr> available_channels := A \<rparr>) = port_is_open mh"
  by (simp_all add: port_is_open_def)

lemma send_note_off_port_is_open [simp]:
  "port_is_open (snd (send_note_off n f mh)) = port_is_open mh"
  by (simp add: send_note_off_def Let_def split: option.splits)

lemma send_note_off_channels_in_range:
  "channels_in_range mh \<Longrightarrow> channels_in_range (snd (send_note_off n f mh))"
  by (auto simp: send_note_off_def Let_def channels_in_range_def ran_def split: option.splits if_splits)

lemma send_note_off_other:
  "g \<noteq> f \<Longrightarrow>
   active_note_channels (snd (send_note_off n g mh)) f = active_note_channels mh f"
  by (simp add: send_note_off_def Let_def split: option.splits)

lemma send_note_off_available:
  "available_channels mh \<subseteq> available_channels (snd (send_note_off n g mh))"
  by (auto simp: send_note_off_def Let_def split: option.splits)

lemma send_note_off_released:
  "port_is_open mh \<Longrightarrow> active_note_channels mh f = Some c \<Longrightarrow>
   active_note_channels (snd (send_note_off n f mh)) f = None
   \<and> c \<in> available_channels (snd (send_note_off n f mh))"
  by (simp add: send_note_off_def Let_def)

lemma send_note_off_keeps_none:
  "active_note_channels mh f = None \<Longrightarrow>
   active_note_channels (snd (send_note_off n g mh)) f = None"
  by (simp add: send_note_off_def Let_def split: option.splits)

lemma with_midi_Some:
  "midi_handler ae = Some mh \<Longrightarrow>
   with_midi send ae = (fst (send mh), ae\<lparr> midi_handler := Some (snd (send mh)) \<rparr>)"
  by (simp add: with_midi_def split: prod.splits)

lemma pitch_bend_Some:
  "midi_handler ae = Some mh \<Longrightarrow>
   pitch_bend b f ae =
     (fst (send_pitch_bend b f mh),
      ae\<lparr> calls := calls ae @ [PitchBend b f], midi_handler := Some (snd (send_pitch_bend b f mh)) \<rparr>)"
  by (simp add: pitch_bend_def with_midi_Some)

lemma intensity_update_Some:
  "midi_handler ae = Some mh \<Longrightarrow>
   intensity_update v f n ae =
     (fst (send_channel_pressure v f mh),
      ae\<lparr> calls := calls ae @ [IntensityUpdate v f n],
          midi_handler := Some (snd (send_channel_pressure v f mh)) \<rparr>)"
  by (simp add: intensity_update_def with_midi_Some)

lemma note_off_Some:
  "midi_handler ae = Some mh \<Longrightarrow>
   note_off n f ae =
     (fst (send_note_off n f mh),
      ae\<lparr> calls := calls ae @ [NoteOff n f], midi_handler := Some (snd (send_note_off n f mh)) \<rparr>)"
  by (simp add: note_off_def with_midi_Some)

lemma pitch_ok_bend: "pitch_ok (calculate_pitch_bend x r)"
  by (cases r)
    (simp add: calculate_pitch_bend_def pitch_ok_def midi_bend_max_abs_value_def Let_def
      le_max_iff_disj min_le_iff_disj)

lemma data_byte_ok_intensity: "data_byte_ok (calculate_continuous_intensity y r)"
  using velocity_range [of y r] by (simp add: data_byte_ok_def velocity_eq_intensity)

lemma sustain_hand_released:
  "(case extended_tip h (snd f) of
      None \<Rightarrow> True
    | Some (x, y, _) \<Rightarrow> \<not> is_point_inside (zone_store s (zone nd)) x y) \<Longrightarrow>
   sustain_hand h f nd s = (None, False, s)"
  by (auto simp: sustain_hand_def extended_tip_def Let_def split: option.splits)

lemma sustain_hand_sustained:
  "\<not> (case extended_tip h (snd f) of
        None \<Rightarrow> True
      | Some (x, y, _) \<Rightarrow> \<not> is_point_inside (zone_store s (zone nd)) x y) \<Longrightarrow>
   fst (snd (sustain_hand h f nd s))"
  by (auto simp: sustain_hand_def extended_tip_def Let_def split: option.splits prod.splits)

lemma process_active_note_released:
  "finger_released hands g (zone_store t (zone nd)) \<Longrightarrow>
   process_active_note hands (g, nd) t =
     (case note_off (midi_note nd) g (audio_engine t) of
        (Some e, ae) \<Rightarrow> (Some e, t\<lparr> audio_engine := ae \<rparr>)
      | (None, ae) \<Rightarrow>
          (None,
           t\<lparr> audio_engine := ae,
               zone_store := (zone_store t)(zone nd := deactivate (zone_store t (zone nd))),
               notes_to_remove := insert g (notes_to_remove t) \<rparr>))"
  by (auto simp: process_active_note_def find_hand_eq finger_released_def sustain_hand_released
      split: option.splits)

lemma process_active_note_sustained:
  assumes "\<not> finger_released hands g (zone_store t (zone nd))"
  shows "\<exists>h. find (\<lambda>h. handedness h = fst g) hands = Some h
    \<and> process_active_note hands (g, nd) t =
        (fst (sustain_hand h g nd t), snd (snd (sustain_hand h g nd t)))"
proof -
  from assms obtain h where h: "find (\<lambda>h. handedness h = fst g) hands = Some h"
    and c: "\<not> (case extended_tip h (snd g) of
        None \<Rightarrow> True
      | Some (x, y, _) \<Rightarrow> \<not> is_point_inside (zone_store t (zone nd)) x y)"
    by (auto simp: finger_released_def split: option.splits)
  obtain e valid t' where r: "sustain_hand h g nd t = (e, valid, t')"
    by (cases "sustain_hand h g nd t") auto
  with sustain_hand_sustained [OF c] have "valid" by simp
  with h r show ?thesis
    by (cases e) (simp_all add: process_active_note_def find_hand_eq)
qed

lemma process_active_note_active_notes [simp]:
  "active_notes (snd (process_active_note hands item t)) = active_notes t"
proof (cases item)
  case (Pair g nd)
  show ?thesis
  proof (cases "finger_released hands g (zone_store t (zone nd))")
    case True
    then show ?thesis
      by (simp add: Pair process_active_note_released split: prod.splits option.splits)
  next
    case False
    from process_active_note_sustained [OF False] show ?thesis
      by (auto simp: Pair sustain_hand_frame)
  qed
qed

lemma process_active_note_zone:
  "zone_store (snd (process_active_note hands (g, nd) t)) =
     (if finger_released hands g (zone_store t (zone nd)) \<and>
         fst (process_active_note hands (g, nd) t) = None
      then (zone_store t)(zone nd := deactivate (zone_store t (zone nd)))
      else zone_store t)"
proof (cases "finger_released hands g (zone_store t (zone nd))")
  case True
  then show ?thesis
    by (simp add: process_active_note_released split: prod.splits option.splits)
next
  case False
  from process_active_note_sustained [OF False] show ?thesis
    by (auto simp: False sustain_hand_frame)
qed

lemma process_active_note_notes_to_remove:
  "notes_to_remove (snd (process_active_note hands (g, nd) t)) =
     (if finger_released hands g (zone_store t (zone nd)) \<and>
         fst (process_active_note hands (g, nd) t) = None
      then insert g (notes_to_remove t)
      else notes_to_remove t)"
proof (cases "finger_released hands g (zone_store t (zone nd))")
  case True
  then show ?thesis
    by (simp add: process_active_note_released split: prod.splits option.splits)
next
  case False
  from process_active_note_sustained [OF False] show ?thesis
    by (auto simp: False sustain_hand_frame)
qed

lemma process_active_note_emits:
  "emits (\<lambda>c. call_finger c = g \<and> \<not> is_note_on c) t (snd (process_active_note hands (g, nd) t))"
proof (cases "finger_released hands g (zone_store t (zone nd))")
  case True
  then show ?thesis
    by (auto simp: process_active_note_released emits_def split: prod.splits option.splits
        dest!: note_offD)
next
  case False
  from process_active_note_sustained [OF False] show ?thesis
    by (auto simp: sustain_hand_emits)
qed

lemma rect_deactivate [simp]: "rect (deactivate z) = rect z"
  by (simp add: deactivate_def)

lemma rect_activate [simp]: "rect (activate z f) = rect z"
  by (simp add: activate_def)

lemma is_point_inside_rect:
  "rect z' = rect z \<Longrightarrow> is_point_inside z' x y = is_point_inside z x y"
  by (simp add: is_point_inside_def)

lemma finger_released_rect:
  "rect z' = rect z \<Longrightarrow> finger_released hands f z' = finger_released hands f z"
  by (auto simp: finger_released_def is_point_inside_rect [of z' z] split: option.splits)

lemma process_active_note_rect [simp]:
  "rect (zone_store (snd (process_active_note hands item t)) b) = rect (zone_store t b)"
  by (cases item) (simp add: process_active_note_zone)


lemma snd_process_hands_data:
  "snd (process_hands_data pop hands zones s) =
     (if fst (release_pass hands s) = None
      then snd (claim_pass pop hands zones (snd (release_pass hands s)))
      else snd (release_pass hands s))"
  by (simp add: process_hands_data_def split: prod.splits option.splits)

lemma remove_notes_fields [simp]:
  "zone_store (remove_notes t) = zone_store t"
  "audio_engine (remove_notes t) = audio_engine t"
  "set (active_notes (remove_notes t)) \<subseteq> set (active_notes t)"
  by (auto simp: remove_notes_def)


lemma emits_remove_notes [simp]: "emits P s (remove_notes t) = emits P s t"
  by (simp add: emits_def)


lemma scan_zones_blocked:
  "find (\<lambda>b. is_point_inside (zone_store t b) x y) zones = Some a \<Longrightarrow>
   is_active (zone_store t a) \<Longrightarrow>
   scan_zones pop zones fid x y t = (None, t)"
  by (induction zones) (auto simp: Let_def split: if_splits)

lemma scan_zones_emits:
  "emits (\<lambda>c. is_note_on c \<and> call_finger c = fid) t (snd (scan_zones pop zones fid x y t))"
  by (induction zones)
    (auto simp: Let_def emits_def split: prod.splits option.splits dest!: note_onD)

lemma scan_zones_zone:
  "zone_store (snd (scan_zones pop zones fid x y t)) b = zone_store t b
   \<or> (\<not> is_active (zone_store t b)
      \<and> zone_store (snd (scan_zones pop zones fid x y t)) b = activate (zone_store t b) fid)"
  by (induction zones) (auto simp: Let_def split: prod.splits option.splits)


lemma finger_name_of_tip:
  "(finger_name, tip_id) \<in> set FINGER_TIP_LANDMARKS \<Longrightarrow>
   LANDMARK_ID_TO_FINGER_NAME tip_id = Some finger_name"
  by (auto simp: FINGER_TIP_LANDMARKS_def LANDMARK_ID_TO_FINGER_NAME_def)

lemma try_finger_cases:
  assumes "(finger_name, tip_id) \<in> set FINGER_TIP_LANDMARKS"
  shows "try_finger pop zones h hand_id (finger_name, tip_id) t = (None, t)
    \<or> (\<exists>x y d. extended_tip h tip_id = Some (x, y, d)
          \<and> try_finger pop zones h hand_id (finger_name, tip_id) t =
              scan_zones pop zones (hand_id, tip_id) x y t)"
  using finger_name_of_tip [OF assms]
  by (auto simp: try_finger_def extended_tip_def Let_def split: option.splits)








text \<open>
  Claim C4 fails for a hand whose handedness is \<open>"Unknown"\<close>. Part 2 of
  \<open>process_hands_data\<close> names its fingers \<open>("hand_0", tip)\<close>, part 1 looks for a hand
  whose \<open>handedness\<close> is \<open>"hand_0"\<close> and finds none. With the index finger held still
  in the first zone, the second frame ends the note and starts it again: the engine
  receives \<open>note_on\<close>, then \<open>note_off\<close> and a second \<open>note_on\<close>.
\<close>

theorem retrigger_C4:
  "calls (audio_engine (snd (process_hands_data Min [example_hand ''Unknown'' 50 50] [0, 1]
      example_manager)))
     = [NoteOn 60 64 (''hand_0'', 8)]
   \<and> calls (audio_engine (snd (process_hands_data Min [example_hand ''Unknown'' 50 50] [0, 1]
      (snd (process_hands_data Min [example_hand ''Unknown'' 50 50] [0, 1] example_manager)))))
     = [NoteOn 60 64 (''hand_0'', 8), NoteOff 60 (''hand_0'', 8), NoteOn 60 64 (''hand_0'', 8)]"
  by code_simp

text \<open>
  The same two frames with a right hand: one \<open>note_on\<close>, then the pitch bend and the
  intensity of the second frame.
\<close>

lemma sustain_right_hand:
  "calls (audio_engine (snd (process_hands_data Min [example_hand ''Right'' 50 50] [0, 1]
      (snd (process_hands_data Min [example_hand ''Right'' 50 50] [0, 1] example_manager)))))
     = [NoteOn 60 64 (''Right'', 8), PitchBend 0 (''Right'', 8), IntensityUpdate 64 (''Right'', 8) 60]"
  by code_simp

section \<open>The end of a note\<close>

lemma for_each_append:
  "for_each body (xs @ ys) s =
     (case for_each body xs s of
        (Some e, s') \<Rightarrow> (Some e, s')
      | (None, s') \<Rightarrow> for_each body ys s')"
  by (induction xs arbitrary: s) (auto split: prod.splits option.splits)

lemma for_each_inv_ok:
  assumes "I s"
    and "\<And>x t. x \<in> set xs \<Longrightarrow> I t \<Longrightarrow> fst (body x t) = None \<and> I (snd (body x t))"
  shows "fst (for_each body xs s) = None \<and> I (snd (for_each body xs s))"
  using assms
proof (induction xs arbitrary: s)
  case Nil
  then show ?case by simp
next
  case (Cons x xs)
  from Cons.prems have x: "fst (body x s) = None" "I (snd (body x s))"
    by simp_all
  then obtain s' where b: "body x s = (None, s')" and s': "I s'"
    by (cases "body x s") auto
  from Cons.IH [OF s'] Cons.prems(2) b show ?case
    by simp
qed

lemma sustain_hand_handler:
  assumes "midi_handler (audio_engine t) = Some m" and "channels_in_range m"
  shows "fst (sustain_hand h g nd t) = None
    \<and> (\<exists>m'. midi_handler (audio_engine (snd (snd (sustain_hand h g nd t)))) = Some m'
          \<and> available_channels m' = available_channels m
          \<and> active_note_channels m' = active_note_channels m
          \<and> port_is_open m' = port_is_open m
          \<and> channels_in_range m')"
  using assms
  by (auto simp: sustain_hand_def Let_def pitch_bend_Some intensity_update_Some
      send_pitch_bend_ok send_channel_pressure_ok pitch_ok_bend data_byte_ok_intensity
      split: option.splits)

lemma process_active_note_handler:
  assumes m: "midi_handler (audio_engine t) = Some m" and r: "channels_in_range m"
    and n: "data_byte_ok (midi_note nd)"
  shows "fst (process_active_note hands (g, nd) t) = None
    \<and> (\<exists>m'. midi_handler (audio_engine (snd (process_active_note hands (g, nd) t))) = Some m'
          \<and> port_is_open m' = port_is_open m
          \<and> channels_in_range m'
          \<and> available_channels m \<subseteq> available_channels m'
          \<and> (f \<noteq> g \<longrightarrow> active_note_channels m' f = active_note_channels m f)
          \<and> (finger_released hands g (zone_store t (zone nd)) \<longrightarrow>
                m' = snd (send_note_off (midi_note nd) g m)))"
proof (cases "finger_released hands g (zone_store t (zone nd))")
  case True
  with m r n show ?thesis
    by (simp add: process_active_note_released note_off_Some send_note_off_ok
        send_note_off_channels_in_range send_note_off_available send_note_off_other)
next
  case False
  from process_active_note_sustained [OF False] obtain h where
    "process_active_note hands (g, nd) t =
        (fst (sustain_hand h g nd t), snd (snd (sustain_hand h g nd t)))"
    by blast
  with sustain_hand_handler [OF m r, of h g nd] False show ?thesis
    by auto
qed

lemma process_active_note_released_calls:
  "finger_released hands g (zone_store t (zone nd)) \<Longrightarrow>
   calls (audio_engine (snd (process_active_note hands (g, nd) t))) =
     calls (audio_engine t) @ [NoteOff (midi_note nd) g]"
  by (auto simp: process_active_note_released split: prod.splits option.splits dest!: note_offD)

lemma is_active_deactivate [simp]:
  "\<not> is_active (deactivate z)" "active_finger_id (deactivate z) = None"
  by (simp_all add: deactivate_def)

lemma note_held_step:
  assumes g: "g \<noteq> f" and n: "data_byte_ok (midi_note ndg)" and held: "note_held s f c t"
  shows "fst (process_active_note hands (g, ndg) t) = None
    \<and> note_held s f c (snd (process_active_note hands (g, ndg) t))"
proof -
  let ?t = "snd (process_active_note hands (g, ndg) t)"
  from held obtain m where m: "midi_handler (audio_engine t) = Some m"
    and o: "port_is_open m" and r: "channels_in_range m"
    and c: "active_note_channels m f = Some c"
    by (auto simp: note_held_def)
  from process_active_note_handler [OF m r n, of hands g f] obtain m' where
    ok: "fst (process_active_note hands (g, ndg) t) = None"
    and m': "midi_handler (audio_engine ?t) = Some m'" "port_is_open m' = port_is_open m"
      "channels_in_range m'"
      "f \<noteq> g \<longrightarrow> active_note_channels m' f = active_note_channels m f"
    by blast
  from m' g o c
  have h: "\<exists>m'. midi_handler (audio_engine ?t) = Some m' \<and> port_is_open m'
        \<and> channels_in_range m' \<and> active_note_channels m' f = Some c"
    by auto
  have "emits (\<lambda>k. call_finger k \<noteq> f) t ?t"
    by (rule emits_weaken [OF process_active_note_emits]) (use g in auto)
  with held have "emits (\<lambda>k. call_finger k \<noteq> f) s ?t"
    by (auto simp: note_held_def intro: emits_trans)
  with ok h held show ?thesis
    by (simp add: note_held_def)
qed

lemma note_release_step:
  assumes held: "note_held s f c t"
    and rel: "finger_released hands f (zone_store s (zone nd))"
    and n: "data_byte_ok (midi_note nd)"
  shows "fst (process_active_note hands (f, nd) t) = None
    \<and> note_ended s f c nd (snd (process_active_note hands (f, nd) t))"
proof -
  let ?t = "snd (process_active_note hands (f, nd) t)"
  from held obtain m where m: "midi_handler (audio_engine t) = Some m"
    and o: "port_is_open m" and r: "channels_in_range m"
    and c: "active_note_channels m f = Some c"
    by (auto simp: note_held_def)
  from held have "rect (zone_store t (zone nd)) = rect (zone_store s (zone nd))"
    by (simp add: note_held_def)
  from finger_released_rect [OF this, of hands f] rel
  have rel': "finger_released hands f (zone_store t (zone nd))"
    by simp
  from process_active_note_handler [OF m r n, of hands f f] obtain m' where
    ok: "fst (process_active_note hands (f, nd) t) = None"
    and m': "midi_handler (audio_engine ?t) = Some m'" "port_is_open m' = port_is_open m"
      "channels_in_range m'"
      "finger_released hands f (zone_store t (zone nd)) \<longrightarrow>
         m' = snd (send_note_off (midi_note nd) f m)"
    by blast
  from m'(4) rel' have eq: "m' = snd (send_note_off (midi_note nd) f m)"
    by simp
  from send_note_off_released [OF o c, of "midi_note nd"] eq
  have fr: "active_note_channels m' f = None" "c \<in> available_channels m'"
    by simp_all
  from m'(1-3) o fr
  have h: "\<exists>m'. midi_handler (audio_engine ?t) = Some m' \<and> port_is_open m'
        \<and> channels_in_range m' \<and> active_note_channels m' f = None \<and> c \<in> available_channels m'"
    by auto
  from held obtain cs where cs: "calls (audio_engine t) = calls (audio_engine s) @ cs"
    "list_all (\<lambda>k. call_finger k \<noteq> f) cs"
    by (auto simp: note_held_def emits_def)
  from cs(2) have "filter (\<lambda>k. call_finger k = f \<and> \<not> is_note_on k) cs = []"
    by (auto simp: list_all_iff filter_empty_conv)
  with cs(1) process_active_note_released_calls [OF rel']
  have tr: "\<exists>cs'. calls (audio_engine ?t) = calls (audio_engine s) @ cs'
      \<and> filter (\<lambda>k. call_finger k = f \<and> \<not> is_note_on k) cs' = [NoteOff (midi_note nd) f]"
    by (intro exI [of _ "cs @ [NoteOff (midi_note nd) f]"]) simp
  from rel' ok have z: "\<not> is_active (zone_store ?t (zone nd))"
      "active_finger_id (zone_store ?t (zone nd)) = None"
      "f \<in> notes_to_remove ?t"
    by (simp_all add: process_active_note_zone process_active_note_notes_to_remove)
  from ok h z tr show ?thesis
    by (simp add: note_ended_def)
qed

lemma note_ended_step:
  assumes g: "g \<noteq> f" and n: "data_byte_ok (midi_note ndg)" and ended: "note_ended s f c nd t"
  shows "fst (process_active_note hands (g, ndg) t) = None
    \<and> note_ended s f c nd (snd (process_active_note hands (g, ndg) t))"
proof -
  let ?t = "snd (process_active_note hands (g, ndg) t)"
  from ended obtain m where m: "midi_handler (audio_engine t) = Some m"
    and o: "port_is_open m" and r: "channels_in_range m"
    and c: "active_note_channels m f = None" "c \<in> available_channels m"
    by (auto simp: note_ended_def)
  from process_active_note_handler [OF m r n, of hands g f] obtain m' where
    ok: "fst (process_active_note hands (g, ndg) t) = None"
    and m': "midi_handler (audio_engine ?t) = Some m'" "port_is_open m' = port_is_open m"
      "channels_in_range m'" "available_channels m \<subseteq> available_channels m'"
      "f \<noteq> g \<longrightarrow> active_note_channels m' f = active_note_channels m f"
    by blast
  from m' g o c
  have h: "\<exists>m'. midi_handler (audio_engine ?t) = Some m' \<and> port_is_open m'
        \<and> channels_in_range m' \<and> active_note_channels m' f = None \<and> c \<in> available_channels m'"
    by auto
  from ended have z: "\<not> is_active (zone_store ?t (zone nd))"
      "active_finger_id (zone_store ?t (zone nd)) = None"
      "f \<in> notes_to_remove ?t"
    by (simp_all add: note_ended_def process_active_note_zone process_active_note_notes_to_remove)
  from process_active_note_emits [of g t hands ndg] obtain cs' where
    cs': "calls (audio_engine ?t) = calls (audio_engine t) @ cs'"
      "list_all (\<lambda>k. call_finger k = g \<and> \<not> is_note_on k) cs'"
    by (auto simp: emits_def)
  from cs'(2) g have "filter (\<lambda>k. call_finger k = f \<and> \<not> is_note_on k) cs' = []"
    by (auto simp: list_all_iff filter_empty_conv)
  with cs'(1) ended
  have tr: "\<exists>cs. calls (audio_engine ?t) = calls (audio_engine s) @ cs
      \<and> filter (\<lambda>k. call_finger k = f \<and> \<not> is_note_on k) cs = [NoteOff (midi_note nd) f]"
    by (auto simp: note_ended_def)
  from ok h z tr show ?thesis
    by (simp add: note_ended_def)
qed

lemma try_finger_emits:
  assumes "finger \<in> set FINGER_TIP_LANDMARKS"
  shows "emits is_note_on t (snd (try_finger pop zones h hand_id finger t))"
proof -
  obtain finger_name tip_id where fg: "finger = (finger_name, tip_id)"
    by (cases finger) auto
  from try_finger_cases [OF assms [unfolded fg], of pop zones h hand_id t] show ?thesis
    by (auto simp: fg intro: emits_weaken [OF scan_zones_emits])
qed

lemma claim_pass_emits: "emits is_note_on t (snd (claim_pass pop hands zones t))"
  unfolding claim_pass_def
proof (rule for_each_inv [where I = "emits is_note_on t"])
  show "emits is_note_on t t"
    by simp
next
  fix ih :: "nat \<times> hand" and u
  assume u: "emits is_note_on t u"
  obtain idx h where p: "ih = (idx, h)"
    by (cases ih) auto
  have "emits is_note_on t
      (snd (for_each (try_finger pop zones h (hand_id_of idx h)) FINGER_TIP_LANDMARKS u))"
  proof (rule for_each_inv [where I = "emits is_note_on t", OF u])
    fix finger v
    assume "finger \<in> set FINGER_TIP_LANDMARKS" and "emits is_note_on t v"
    then show "emits is_note_on t (snd (try_finger pop zones h (hand_id_of idx h) finger v))"
      by (blast intro: emits_trans try_finger_emits)
  qed
  then show "emits is_note_on t (snd (try_hand pop zones ih u))"
    by (simp add: try_hand_def p)
qed

lemma release_pass_ended:
  assumes d: "distinct (map fst (active_notes s))"
    and b: "(f, nd) \<in> set (active_notes s)"
    and rel: "finger_released hands f (zone_store s (zone nd))"
    and m: "midi_handler (audio_engine s) = Some mh"
    and o: "port_is_open mh" and r: "channels_in_range mh"
    and c: "active_note_channels mh f = Some c"
    and n: "\<forall>(g, ndg) \<in> set (active_notes s). data_byte_ok (midi_note ndg)"
  shows "\<exists>t. release_pass hands s = (None, remove_notes t) \<and> note_ended s f c nd t"
proof -
  let ?s0 = "s\<lparr> processed_finger_identifiers := {}, notes_to_remove := {} \<rparr>"
  let ?body = "process_active_note hands"
  from b obtain pre post where sp: "active_notes s = pre @ (f, nd) # post"
    by (auto dest: split_list)
  with d have fresh: "f \<notin> fst ` set pre" "f \<notin> fst ` set post"
    by auto
  from sp n have ok: "\<forall>(g, ndg) \<in> set pre \<union> set post. data_byte_ok (midi_note ndg)"
    "data_byte_ok (midi_note nd)"
    by auto
  have "note_held s f c ?s0"
    using m o r c by (simp add: note_held_def emits_same_calls)
  then have "fst (for_each ?body pre ?s0) = None
      \<and> note_held s f c (snd (for_each ?body pre ?s0))"
  proof (rule for_each_inv_ok [where I = "note_held s f c"])
    fix x t
    assume x: "x \<in> set pre" and t: "note_held s f c t"
    obtain g ndg where p: "x = (g, ndg)"
      by (cases x) auto
    from x p fresh(1) have "g \<noteq> f"
      by force
    moreover from x p ok(1) have "data_byte_ok (midi_note ndg)"
      by auto
    ultimately show "fst (?body x t) = None \<and> note_held s f c (snd (?body x t))"
      unfolding p using t by (rule note_held_step)
  qed
  then obtain t1 where e1: "for_each ?body pre ?s0 = (None, t1)" and 1: "note_held s f c t1"
    by (cases "for_each ?body pre ?s0") auto
  from note_release_step [OF 1 rel ok(2)]
  obtain t2 where e2: "?body (f, nd) t1 = (None, t2)" and 2: "note_ended s f c nd t2"
    by (cases "?body (f, nd) t1") auto
  from 2 have "fst (for_each ?body post t2) = None
      \<and> note_ended s f c nd (snd (for_each ?body post t2))"
  proof (rule for_each_inv_ok [where I = "note_ended s f c nd"])
    fix x t
    assume x: "x \<in> set post" and t: "note_ended s f c nd t"
    obtain g ndg where p: "x = (g, ndg)"
      by (cases x) auto
    from x p fresh(2) have "g \<noteq> f"
      by force
    moreover from x p ok(1) have "data_byte_ok (midi_note ndg)"
      by auto
    ultimately show "fst (?body x t) = None \<and> note_ended s f c nd (snd (?body x t))"
      unfolding p using t by (rule note_ended_step)
  qed
  then obtain t3 where e3: "for_each ?body post t2 = (None, t3)" and 3: "note_ended s f c nd t3"
    by (cases "for_each ?body post t2") auto
  have "for_each ?body (active_notes s) ?s0 = (None, t3)"
    by (simp add: sp for_each_append e1 e2 e3)
  then have "release_pass hands s = (None, remove_notes t3)"
    by (simp add: release_pass_def Let_def)
  with 3 show ?thesis
    by blast
qed

text \<open>
  Claim C3. Let \<open>f\<close> be bound in \<open>active_notes\<close> to the zone \<open>zone nd\<close> with the note
  \<open>midi_note nd\<close>, and hold the channel \<open>c\<close> of a handler with an open port. Let the
  frame release \<open>f\<close>: no hand of the frame has the hand identifier of \<open>f\<close>, or the hand
  does not show the finger extended, or its landmark is missing, or the tip is outside the
  zone. With channels within 1..16 and notes within 0..127 (so that \<open>mido\<close> accepts every
  message), part 1 of \<open>process_hands_data\<close> raises nothing, and when it ends the zone is
  not active and has no owner, \<open>f\<close> holds no channel and \<open>c\<close> is available again, and
  \<open>f\<close> has no entry in \<open>active_notes\<close>. Among the engine calls of the whole frame, those
  for \<open>f\<close> other than \<open>note_on\<close> are exactly the one \<open>note_off\<close> with the note of the
  binding. (Part 2 of the same call may start a new note for \<open>f\<close>, in another zone.)
\<close>

theorem release_C3:
  assumes "distinct (map fst (active_notes s))"
    and "(f, nd) \<in> set (active_notes s)"
    and "finger_released hands_data f (zone_store s (zone nd))"
    and "midi_handler (audio_engine s) = Some mh"
    and "port_is_open mh"
    and "channels_in_range mh"
    and "active_note_channels mh f = Some c"
    and "\<forall>(g, ndg) \<in> set (active_notes s). data_byte_ok (midi_note ndg)"
    and "s1 = snd (release_pass hands_data s)"
    and "s2 = snd (process_hands_data pop hands_data zones s)"
  shows "fst (release_pass hands_data s) = None
    \<and> (\<exists>cs. calls (audio_engine s2) = calls (audio_engine s) @ cs
          \<and> filter (\<lambda>k. call_finger k = f \<and> \<not> is_note_on k) cs = [NoteOff (midi_note nd) f])
    \<and> \<not> is_active (zone_store s1 (zone nd))
    \<and> active_finger_id (zone_store s1 (zone nd)) = None
    \<and> (\<exists>m1. midi_handler (audio_engine s1) = Some m1
          \<and> active_note_channels m1 f = None \<and> c \<in> available_channels m1)
    \<and> \<not> dict_has (active_notes s1) f"
proof -
  from release_pass_ended [OF assms(1-8)] obtain t where
    rp: "release_pass hands_data s = (None, remove_notes t)" and e: "note_ended s f c nd t"
    by blast
  from rp have s1: "s1 = remove_notes t"
    by (simp add: assms(9))
  from rp have s2: "s2 = snd (claim_pass pop hands_data zones (remove_notes t))"
    by (simp add: assms(10) process_hands_data_def)
  from e obtain cs where cs: "calls (audio_engine t) = calls (audio_engine s) @ cs"
    "filter (\<lambda>k. call_finger k = f \<and> \<not> is_note_on k) cs = [NoteOff (midi_note nd) f]"
    by (auto simp: note_ended_def)
  from claim_pass_emits [of "remove_notes t" pop hands_data zones] obtain cs' where
    cs': "calls (audio_engine s2) = calls (audio_engine t) @ cs'" "list_all is_note_on cs'"
    by (auto simp: emits_def s2)
  from cs'(2) have "filter (\<lambda>k. call_finger k = f \<and> \<not> is_note_on k) cs' = []"
    by (auto simp: list_all_iff filter_empty_conv)
  with cs cs'(1) have tr: "\<exists>cs. calls (audio_engine s2) = calls (audio_engine s) @ cs
      \<and> filter (\<lambda>k. call_finger k = f \<and> \<not> is_note_on k) cs = [NoteOff (midi_note nd) f]"
    by (intro exI [of _ "cs @ cs'"]) simp
  from e have "f \<in> notes_to_remove t"
    by (simp add: note_ended_def)
  then have gone: "\<not> dict_has (active_notes s1) f"
    by (auto simp: s1 dict_has_def remove_notes_def)
  from e tr gone rp show ?thesis
    by (auto simp: s1 note_ended_def)
qed

theorem release_C3_witness:
  "finger_released [example_hand ''Right'' 150 50] (''Right'', 8) (zone_store held_note 0)
   \<and> fst (release_pass [example_hand ''Right'' 150 50] held_note) = None
   \<and> (\<exists>cs. calls (audio_engine (snd (process_hands_data Min [example_hand ''Right'' 150 50] [0, 1]
                held_note)))
             = calls (audio_engine held_note) @ cs
          \<and> filter (\<lambda>k. call_finger k = (''Right'', 8) \<and> \<not> is_note_on k) cs
             = [NoteOff 60 (''Right'', 8)])
   \<and> \<not> is_active (zone_store (snd (release_pass [example_hand ''Right'' 150 50] held_note)) 0)
   \<and> active_finger_id (zone_store (snd (release_pass [example_hand ''Right'' 150 50] held_note)) 0)
       = None
   \<and> (\<exists>m1. midi_handler (audio_engine (snd (release_pass [example_hand ''Right'' 150 50] held_note)))
             = Some m1
          \<and> active_note_channels m1 (''Right'', 8) = None \<and> 2 \<in> available_channels m1)
   \<and> \<not> dict_has (active_notes (snd (release_pass [example_hand ''Right'' 150 50] held_note)))
         (''Right'', 8)"
proof -
  let ?nd = "\<lparr> zone = 0, initial_y = 50, midi_note = 60 \<rparr>"
  let ?mh = "\<lparr> available_channels = {3..16},
               active_note_channels = [(''Right'', 8::int) \<mapsto> 2::int],
               port = Some \<lparr> port_closed = False, sent = [Note_on 60 64 1] \<rparr> \<rparr>"
  have h1: "distinct (map fst (active_notes held_note))"
    by (simp add: held_note_def)
  have h2: "((''Right'', 8), ?nd) \<in> set (active_notes held_note)"
    by (simp add: held_note_def)
  have h3: "finger_released [example_hand ''Right'' 150 50] (''Right'', 8)
      (zone_store held_note (zone ?nd))"
    by code_simp
  have h4: "midi_handler (audio_engine held_note) = Some ?mh"
    by (simp add: held_note_def)
  have h5: "port_is_open ?mh"
    by (simp add: port_is_open_def)
  have h6: "channels_in_range ?mh"
    by (simp add: channels_in_range_def)
  have h7: "active_note_channels ?mh (''Right'', 8) = Some 2"
    by simp
  have h8: "\<forall>(g, ndg) \<in> set (active_notes held_note). data_byte_ok (midi_note ndg)"
    by (simp add: held_note_def data_byte_ok_def)
  show ?thesis
    using h3 release_C3 [OF h1 h2 h3 h4 h5 h6 h7 h8 refl refl, of Min "[0, 1]"]
    by simp
qed

text \<open>
  The frame of the witness as a whole: the finger has moved to the second zone, the note
  of the first zone ends and a note of the second zone starts.
\<close>

lemma release_and_claim_again:
  "calls (audio_engine (snd (process_hands_data Min [example_hand ''Right'' 150 50] [0, 1]
      held_note)))
     = [NoteOn 60 64 (''Right'', 8), NoteOff 60 (''Right'', 8), NoteOn 62 64 (''Right'', 8)]
   \<and> map fst (active_notes (snd (process_hands_data Min [example_hand ''Right'' 150 50] [0, 1]
      held_note))) = [(''Right'', 8)]"
  by code_simp

section \<open>Activation of a zone\<close>

lemma try_finger_blocked:
  assumes finger: "(finger_name, tip_id) \<in> set FINGER_TIP_LANDMARKS"
    and ext: "extended_tip h tip_id = Some (x, y, d)"
    and first: "find (\<lambda>b. is_point_inside (zone_store s b) x y) zones = Some a"
    and active: "is_active (zone_store s a)"
  shows "try_finger pop zones h hand_id (finger_name, tip_id) s = (None, s)"
  using try_finger_cases [OF finger, of pop zones h hand_id s] ext
    scan_zones_blocked [OF first active, of pop "(hand_id, tip_id)"]
  by auto

lemma claim_pass_zone:
  "zone_store (snd (claim_pass pop hands zones t)) b = zone_store t b
   \<or> (\<not> is_active (zone_store t b)
      \<and> (\<exists>fid. zone_store (snd (claim_pass pop hands zones t)) b = activate (zone_store t b) fid))"
proof -
  let ?I = "\<lambda>u :: im_state. zone_store u b = zone_store t b
     \<or> (\<not> is_active (zone_store t b) \<and> (\<exists>fid. zone_store u b = activate (zone_store t b) fid))"
  have step: "?I (snd (try_finger pop zones h hand_id finger u))"
    if "finger \<in> set FINGER_TIP_LANDMARKS" and u: "?I u" for h hand_id finger u
  proof -
    obtain finger_name tip_id where fg: "finger = (finger_name, tip_id)"
      by (cases finger) auto
    from try_finger_cases [OF that(1) [unfolded fg], of pop zones h hand_id u]
    show ?thesis
    proof
      assume "try_finger pop zones h hand_id (finger_name, tip_id) u = (None, u)"
      with u show ?thesis
        by (simp add: fg)
    next
      assume "\<exists>x y d. extended_tip h tip_id = Some (x, y, d)
          \<and> try_finger pop zones h hand_id (finger_name, tip_id) u =
              scan_zones pop zones (hand_id, tip_id) x y u"
      then obtain x y where eq: "try_finger pop zones h hand_id (finger_name, tip_id) u =
              scan_zones pop zones (hand_id, tip_id) x y u"
        by blast
      let ?z = "zone_store (snd (scan_zones pop zones (hand_id, tip_id) x y u)) b"
      have sz: "?z = zone_store u b
          \<or> (\<not> is_active (zone_store u b) \<and> ?z = activate (zone_store u b) (hand_id, tip_id))"
        by (rule scan_zones_zone)
      have "?z = zone_store t b
          \<or> (\<not> is_active (zone_store t b) \<and> (\<exists>fid. ?z = activate (zone_store t b) fid))"
      proof (cases "zone_store u b = zone_store t b")
        case True
        with sz show ?thesis
          by metis
      next
        case False
        with u obtain fid where n: "\<not> is_active (zone_store t b)"
          and a: "zone_store u b = activate (zone_store t b) fid"
          by blast
        from a have "is_active (zone_store u b)"
          by (simp add: activate_def)
        with sz have "?z = zone_store u b"
          by blast
        with n a show ?thesis
          by metis
      qed
      then show ?thesis
        by (simp add: fg eq)
    qed
  qed
  have "?I (snd (for_each (try_hand pop zones) (enumerate 0 hands) t))"
  proof (rule for_each_inv [where I = ?I])
    show "?I t"
      by simp
  next
    fix ih :: "nat \<times> hand" and u :: im_state
    assume u: "?I u"
    obtain idx h where p: "ih = (idx, h)"
      by (cases ih) auto
    have "?I (snd (for_each (try_finger pop zones h (hand_id_of idx h)) FINGER_TIP_LANDMARKS u))"
      by (rule for_each_inv [where I = ?I, OF u]) (rule step)
    then show "?I (snd (try_hand pop zones ih u))"
      by (simp add: try_hand_def p)
  qed
  then show ?thesis
    by (simp add: claim_pass_def)
qed

text \<open>
  Claim C6, amended. \<open>activate\<close> has no guard: whatever the state of the zone, after
  \<open>activate(f2)\<close> the zone is active with owner \<open>f2\<close> and shows its highlight colour,
  and nothing else of it has changed. The guard is in the caller. In
  \<open>process_hands_data\<close>, a finger whose tip has an active zone as the first zone of the
  list that contains it changes nothing, in the loop over the zones and in the loop over
  the fingers; and after the call every zone object is as part 1 of the call left it, or
  is the result of \<open>activate\<close> on a zone that part 1 left inactive.
\<close>

theorem activate_overwrites_C6:
  "is_active (activate z f2)
   \<and> active_finger_id (activate z f2) = Some f2
   \<and> current_color (activate z f2) = highlight_color z
   \<and> activate z f2 = z\<lparr> is_active := True, active_finger_id := Some f2,
                         current_color := highlight_color z \<rparr>
   \<and> (find (\<lambda>b. is_point_inside (zone_store s b) x y) zones = Some a
        \<and> is_active (zone_store s a) \<longrightarrow>
        scan_zones pop zones f2 x y s = (None, s))
   \<and> ((finger_name, tip_id) \<in> set FINGER_TIP_LANDMARKS
        \<and> extended_tip h tip_id = Some (x, y, d)
        \<and> find (\<lambda>b. is_point_inside (zone_store s b) x y) zones = Some a
        \<and> is_active (zone_store s a) \<longrightarrow>
        try_finger pop zones h hand_id (finger_name, tip_id) s = (None, s))
   \<and> (zone_store (snd (scan_zones pop zones f2 x y s)) b = zone_store s b
        \<or> (\<not> is_active (zone_store s b)
           \<and> zone_store (snd (scan_zones pop zones f2 x y s)) b = activate (zone_store s b) f2))
   \<and> (zone_store (snd (process_hands_data pop hands_data zones s)) b
          = zone_store (snd (release_pass hands_data s)) b
        \<or> (\<not> is_active (zone_store (snd (release_pass hands_data s)) b)
           \<and> (\<exists>fid. zone_store (snd (process_hands_data pop hands_data zones s)) b
                  = activate (zone_store (snd (release_pass hands_data s)) b) fid)))"
proof (intro conjI impI)
  show "scan_zones pop zones f2 x y s = (None, s)"
    if "find (\<lambda>b. is_point_inside (zone_store s b) x y) zones = Some a
        \<and> is_active (zone_store s a)"
    using that by (blast intro: scan_zones_blocked)
  show "try_finger pop zones h hand_id (finger_name, tip_id) s = (None, s)"
    if "(finger_name, tip_id) \<in> set FINGER_TIP_LANDMARKS
        \<and> extended_tip h tip_id = Some (x, y, d)
        \<and> find (\<lambda>b. is_point_inside (zone_store s b) x y) zones = Some a
        \<and> is_active (zone_store s a)"
    using that by (blast intro: try_finger_blocked)
  show "zone_store (snd (scan_zones pop zones f2 x y s)) b = zone_store s b
        \<or> (\<not> is_active (zone_store s b)
           \<and> zone_store (snd (scan_zones pop zones f2 x y s)) b = activate (zone_store s b) f2)"
    by (rule scan_zones_zone)
  show "zone_store (snd (process_hands_data pop hands_data zones s)) b
          = zone_store (snd (release_pass hands_data s)) b
        \<or> (\<not> is_active (zone_store (snd (release_pass hands_data s)) b)
           \<and> (\<exists>fid. zone_store (snd (process_hands_data pop hands_data zones s)) b
                  = activate (zone_store (snd (release_pass hands_data s)) b) fid))"
    using claim_pass_zone [of pop hands_data zones "snd (release_pass hands_data s)" b]
    by (simp add: snd_process_hands_data)
qed (simp_all add: activate_def)

theorem activate_overwrites_C6_witness:
  "(''INDEX'', 8) \<in> set FINGER_TIP_LANDMARKS
   \<and> extended_tip (example_hand ''Left'' 60 60) 8 = Some (60, 60, 0)
   \<and> find (\<lambda>b. is_point_inside (zone_store right_holds b) 60 60) [1, 0] = Some 0
   \<and> is_active (zone_store right_holds 0)
   \<and> scan_zones Min [1, 0] (''Left'', 8) 60 60 right_holds = (None, right_holds)
   \<and> try_finger Min [1, 0] (example_hand ''Left'' 60 60) ''Left'' (''INDEX'', 8) right_holds
       = (None, right_holds)"
proof -
  have h1: "(''INDEX'', 8) \<in> set FINGER_TIP_LANDMARKS"
    by (simp add: FINGER_TIP_LANDMARKS_def)
  have h2: "extended_tip (example_hand ''Left'' 60 60) 8 = Some (60, 60, 0)"
    by code_simp
  have h3: "find (\<lambda>b. is_point_inside (zone_store right_holds b) 60 60) [1, 0] = Some 0"
    by code_simp
  have h4: "is_active (zone_store right_holds 0)"
    by code_simp
  show ?thesis
    using h1 h2 h3 h4
      activate_overwrites_C6 [where s = right_holds and x = 60 and y = 60 and zones = "[1, 0]"
        and a = 0 and pop = Min and ?f2.0 = "(''Left'', 8)" and finger_name = "''INDEX''"
        and tip_id = 8 and h = "example_hand ''Left'' 60 60" and d = 0 and hand_id = "''Left''"]
    by blast
qed

text \<open>
  Claim C6 as stated fails: \<open>activate\<close> with a second finger on a zone that the first
  finger owns changes the owner.
\<close>

theorem activate_C6_counterexample:
  "is_active (activate (NoteZone_init 0 0 100 100 ''C4'' 60 None) (''Right'', 8))
   \<and> active_finger_id (activate (NoteZone_init 0 0 100 100 ''C4'' 60 None) (''Right'', 8))
        = Some (''Right'', 8)
   \<and> active_finger_id
        (activate (activate (NoteZone_init 0 0 100 100 ''C4'' 60 None) (''Right'', 8)) (''Left'', 8))
        = Some (''Left'', 8)
   \<and> activate (activate (NoteZone_init 0 0 100 100 ''C4'' 60 None) (''Right'', 8)) (''Left'', 8)
        \<noteq> activate (NoteZone_init 0 0 100 100 ''C4'' 60 None) (''Right'', 8)"
  by (simp add: activate_def NoteZone_init_def)


end
